theory Spec2Isabelle
  imports Main "HOL-Library.Finite_Map"
begin

section \<open>The chat server of \<^verbatim>\<open>src/index3.ts\<close>\<close>

text \<open>
  The server keeps one module-level \<^verbatim>\<open>Map\<close>, \<^verbatim>\<open>chatSessions\<close>, from session ids to
  \<^verbatim>\<open>{ chat, agentName }\<close>, and seven Express routes around it. The agent objects, their
  \<^verbatim>\<open>chat(...)\<close> factory, \<^verbatim>\<open>chat.prompt(...)\<close> and the clock are outside the file: what they
  return is an input of the model, and the calls made to them are recorded in the state.
  Strings of the request body are Isabelle strings, a character that is not ASCII being given
  by the bytes of its UTF-8 encoding; a missing JSON field is \<open>None\<close>.
\<close>

subsection \<open>Agents and errors\<close>

datatype agent = BookAssistantAgent | CryptoAssistantAgent

text \<open>
  What the code throws or catches: the \<^verbatim>\<open>Error\<close> of \<^verbatim>\<open>getAgent\<close>, a rejection of the agent
  runtime (with its message), and the \<^verbatim>\<open>TypeError\<close> of reading a field of \<^verbatim>\<open>undefined\<close>;
  and the error Node raises for a \<^verbatim>\<open>write\<close> on a response that has ended,
  \<^verbatim>\<open>ERR_STREAM_WRITE_AFTER_END\<close>.
\<close>

datatype error = UnknownAgent string | RuntimeError string | TypeError string | WriteAfterEnd

fun error_message :: "error \<Rightarrow> string" where
  "error_message (UnknownAgent agentName) = ''Unknown agent: '' @ agentName"
| "error_message (RuntimeError m) = m"
| "error_message (TypeError m) = m"
| "error_message WriteAfterEnd = ''write after end''"

text \<open>
  \<^verbatim>\<open>String.prototype.toLowerCase\<close>. On a string of ASCII characters it moves each capital
  letter \<^verbatim>\<open>A\<close>..\<^verbatim>\<open>Z\<close> (codes 65..90) up by 32 and leaves every other character as it is.
  On a string with a character that is not ASCII the result follows the Unicode case tables
  of the JavaScript engine, which are not in the repository: the parameter \<open>unicode\<close> stands
  for them and gives the lower-case form of such a string. It is a parameter of every
  function that reaches \<^verbatim>\<open>getAgent\<close>.
\<close>

definition is_ascii :: "char \<Rightarrow> bool" where
  "is_ascii c = ((of_char c :: nat) < 128)"

definition is_upper :: "char \<Rightarrow> bool" where
  "is_upper c = (65 \<le> (of_char c :: nat) \<and> (of_char c :: nat) \<le> 90)"

definition toLowerChar :: "char \<Rightarrow> char" where
  "toLowerChar c = (if is_upper c then char_of ((of_char c :: nat) + 32) else c)"

definition toLowerCase :: "(string \<Rightarrow> string) \<Rightarrow> string \<Rightarrow> string" where
  "toLowerCase unicode s = (if list_all is_ascii s then map toLowerChar s else unicode s)"

text \<open>The \<^verbatim>\<open>switch\<close> of \<^verbatim>\<open>getAgent\<close>, case by case; the \<^verbatim>\<open>default\<close> branch throws.\<close>

definition getAgent :: "(string \<Rightarrow> string) \<Rightarrow> string \<Rightarrow> error + agent" where
  "getAgent unicode agentName =
     (let l = toLowerCase unicode agentName in
      if l = ''book'' then Inr BookAssistantAgent
      else if l = ''book-assistant'' then Inr BookAssistantAgent
      else if l = ''crypto'' then Inr CryptoAssistantAgent
      else if l = ''crypto-assistant'' then Inr CryptoAssistantAgent
      else Inl (UnknownAgent agentName))"

subsection \<open>Chat objects, the registry and the state\<close>

text \<open>
  \<^verbatim>\<open>agent.chat({ id, persist: true })\<close> returns a new object at every call. A chat object is
  modelled by what it was built from and by its identity: \<open>chat_ref\<close> is the number of chat
  objects built before it, so two objects built by two calls are never equal.
\<close>

record chat_handle =
  chat_ref :: nat
  chat_agent :: agent
  chat_id :: string
  chat_persist :: bool

text \<open>An entry of \<^verbatim>\<open>chatSessions\<close>, and what \<^verbatim>\<open>getOrCreateChatSession\<close> returns.\<close>

record session =
  chat :: chat_handle
  agentName :: string

record session_result = session +
  sessionId :: string

text \<open>
  The state: the \<^verbatim>\<open>chatSessions\<close> map, the chat objects built so far by \<^verbatim>\<open>agent.chat\<close> (in
  order), and the calls \<^verbatim>\<open>chat.prompt(message)\<close> made so far (in order).
\<close>

record state =
  chatSessions :: "(string, session) fmap"
  constructed :: "chat_handle list"
  prompted :: "(chat_handle \<times> string) list"

definition init :: state where
  "init = \<lparr>chatSessions = fmempty, constructed = [], prompted = []\<rparr>"

text \<open>JavaScript truthiness of an optional string: \<^verbatim>\<open>undefined\<close> and \<^verbatim>\<open>""\<close> are falsy.\<close>

fun truthy :: "string option \<Rightarrow> bool" where
  "truthy None = False"
| "truthy (Some s) = (s \<noteq> [])"

text \<open>The decimal digits of a number, as a template literal prints \<^verbatim>\<open>Date.now()\<close>.\<close>

definition digit :: "nat \<Rightarrow> char" where
  "digit d = char_of (48 + d)"

fun show_nat :: "nat \<Rightarrow> string" where
  "show_nat n = (if n < 10 then [digit n] else show_nat (n div 10) @ [digit (n mod 10)])"

declare show_nat.simps [simp del]

text \<open>\<^verbatim>\<open>`session-${agentName}-${Date.now()}`\<close>\<close>

definition session_key :: "string \<Rightarrow> nat \<Rightarrow> string" where
  "session_key name now = ''session-'' @ name @ ''-'' @ show_nat now"

text \<open>\<^verbatim>\<open>sessionId || `session-${agentName}-${Date.now()}`\<close>\<close>

definition or_session_key :: "string option \<Rightarrow> string \<Rightarrow> nat \<Rightarrow> string" where
  "or_session_key sid name now =
     (case sid of
        Some s \<Rightarrow> if s \<noteq> [] then s else session_key name now
      | None \<Rightarrow> session_key name now)"

text \<open>
  \<^verbatim>\<open>agent.chat({ id, persist })\<close>: a new chat object, whose identity is the number of objects
  built before it.
\<close>

definition agent_chat :: "agent \<Rightarrow> string \<Rightarrow> bool \<Rightarrow> state \<Rightarrow> chat_handle \<times> state" where
  "agent_chat a ident p st =
     (let c = \<lparr>chat_ref = length (constructed st), chat_agent = a, chat_id = ident,
               chat_persist = p\<rparr>
      in (c, st\<lparr>constructed := constructed st @ [c]\<rparr>))"

text \<open>
  \<^verbatim>\<open>getOrCreateChatSession(agentName, sessionId?)\<close>, with \<open>now\<close> the value of \<^verbatim>\<open>Date.now()\<close>
  should line 36 read the clock. \<^verbatim>\<open>getAgent\<close> runs first and its exception leaves the
  function before anything is stored.
\<close>

definition getOrCreateChatSession ::
  "(string \<Rightarrow> string) \<Rightarrow> nat \<Rightarrow> string \<Rightarrow> string option \<Rightarrow> state \<Rightarrow> (error + session_result) \<times> state" where
  "getOrCreateChatSession unicode now name sid st =
     (case getAgent unicode name of
        Inl e \<Rightarrow> (Inl e, st)
      | Inr a \<Rightarrow>
          let chatSessionId = or_session_key sid name now;
              st' = (if chatSessionId |\<notin>| fmdom (chatSessions st) then
                       let (c, s) = agent_chat a chatSessionId True st
                       in s\<lparr>chatSessions :=
                              fmupd chatSessionId \<lparr>chat = c, agentName = name\<rparr> (chatSessions s)\<rparr>
                     else st)
          in (case fmlookup (chatSessions st') chatSessionId of
                None \<Rightarrow> (Inl (TypeError ''Cannot read properties of undefined''), st')
              | Some e \<Rightarrow>
                  (Inr \<lparr>chat = chat e, agentName = agentName e, sessionId = chatSessionId\<rparr>,
                   st')))"

subsection \<open>Requests and responses\<close>

text \<open>
  The fields the chat routes read from \<^verbatim>\<open>req.body\<close>. \<open>text_of\<close> is the string a truthy
  field holds.
\<close>

record chat_request =
  req_sessionId :: "string option"
  req_message :: "string option"
  req_agentName :: "string option"

fun text_of :: "string option \<Rightarrow> string" where
  "text_of None = []"
| "text_of (Some s) = s"

text \<open>
  JSON payloads of \<^verbatim>\<open>res.json\<close>, by their fields: \<^verbatim>\<open>{error}\<close>, \<^verbatim>\<open>{error, details}\<close>,
  \<^verbatim>\<open>{sessionId, agentName, message}\<close>,
  \<^verbatim>\<open>{sessionId, agentName, message, response, timestamp}\<close> (the timestamp is the instant
  \<^verbatim>\<open>new Date()\<close> read, before \<^verbatim>\<open>toISOString\<close>) and \<^verbatim>\<open>{message}\<close>.
\<close>

datatype body =
    ErrorBody string
  | FailureBody string string
  | StartBody string string string
  | MessageBody string string string string nat
  | NoticeBody string

text \<open>
  One frame of the event stream (a line \<^verbatim>\<open>data: <JSON>\<close> and a blank line),
  by the \<^verbatim>\<open>type\<close> of its payload:
  \<^verbatim>\<open>start\<close> (sessionId, agentName), \<^verbatim>\<open>content\<close>, \<^verbatim>\<open>tool_call\<close> (tool, arguments),
  \<^verbatim>\<open>end\<close> and \<^verbatim>\<open>error\<close>.
\<close>

datatype frame =
    StartFrame string string
  | ContentFrame string
  | ToolCallFrame "string option" "string option"
  | EndFrame
  | ErrorFrame string

text \<open>
  The Express response object, as far as the routes drive it. \<open>statusCode\<close> is 200 until
  \<^verbatim>\<open>res.status\<close> or \<^verbatim>\<open>res.writeHead\<close> sets it; \<open>event_stream\<close> says that \<^verbatim>\<open>writeHead\<close> has
  sent the \<^verbatim>\<open>text/event-stream\<close> headers; \<open>sent\<close> is the payload of \<^verbatim>\<open>res.json\<close>.
  \<open>calls\<close> are the chunks the route has passed to \<^verbatim>\<open>res.write\<close>, call by call, and
  \<open>written\<close> those of them that were put on the wire. A \<^verbatim>\<open>res.write\<close> made after
  \<^verbatim>\<open>res.end()\<close> puts nothing on the wire: Node raises \<^verbatim>\<open>ERR_STREAM_WRITE_AFTER_END\<close> for it
  (as an \<^verbatim>\<open>error\<close> event of the response as long as the response is not destroyed, for
  which the file registers no listener). \<open>write_errors\<close> are the errors so raised, in order;
  what the process does with them is not part of this model.
\<close>

record res =
  statusCode :: nat
  event_stream :: bool
  sent :: "body option"
  calls :: "frame list"
  written :: "frame list"
  write_errors :: "error list"
  ended :: bool

definition res0 :: res where
  "res0 = \<lparr>statusCode = 200, event_stream = False, sent = None, calls = [], written = [],
            write_errors = [], ended = False\<rparr>"

definition res_status :: "nat \<Rightarrow> res \<Rightarrow> res" where
  "res_status n r = r\<lparr>statusCode := n\<rparr>"

definition res_json :: "body \<Rightarrow> res \<Rightarrow> res" where
  "res_json b r = r\<lparr>sent := Some b, ended := True\<rparr>"

definition res_writeHead :: "res \<Rightarrow> res" where
  "res_writeHead r = r\<lparr>statusCode := 200, event_stream := True\<rparr>"

definition res_write :: "frame \<Rightarrow> res \<Rightarrow> res" where
  "res_write f r =
     (if ended r
      then r\<lparr>calls := calls r @ [f], write_errors := write_errors r @ [WriteAfterEnd]\<rparr>
      else r\<lparr>calls := calls r @ [f], written := written r @ [f]\<rparr>)"

definition res_end :: "res \<Rightarrow> res" where
  "res_end r = r\<lparr>ended := True\<rparr>"

subsection \<open>Session resolution of the two message routes\<close>

text \<open>
  Lines 90--98 of \<^verbatim>\<open>/api/chat/message\<close> and lines 123--131 of \<^verbatim>\<open>/api/chat/stream\<close> are the
  same statement: use the stored entry if \<^verbatim>\<open>sessionId\<close> is truthy and in the map, else call
  \<^verbatim>\<open>getOrCreateChatSession\<close> if \<^verbatim>\<open>agentName\<close> is truthy, else answer 400. The three ways it
  leaves are \<open>Resolved\<close>, \<open>Thrown\<close> (into the route's \<^verbatim>\<open>catch\<close>) and \<open>NoTarget\<close>.
\<close>

datatype resolution = Resolved session | Thrown error | NoTarget

definition lookup_session :: "string option \<Rightarrow> state \<Rightarrow> session option" where
  "lookup_session sid st =
     (if truthy sid then fmlookup (chatSessions st) (text_of sid) else None)"

definition resolve ::
  "(string \<Rightarrow> string) \<Rightarrow> nat \<Rightarrow> chat_request \<Rightarrow> state \<Rightarrow> resolution \<times> state" where
  "resolve unicode now req st =
     (case lookup_session (req_sessionId req) st of
        Some e \<Rightarrow> (Resolved e, st)
      | None \<Rightarrow>
          if truthy (req_agentName req) then
            (case getOrCreateChatSession unicode now (text_of (req_agentName req)) (req_sessionId req) st of
               (Inl err, st') \<Rightarrow> (Thrown err, st')
             | (Inr r, st') \<Rightarrow> (Resolved \<lparr>chat = chat r, agentName = agentName r\<rparr>, st'))
          else (NoTarget, st))"

subsection \<open>The routes\<close>

text \<open>\<^verbatim>\<open>POST /api/chat/start\<close>; \<open>now\<close> is \<^verbatim>\<open>Date.now()\<close> at line 36.\<close>

definition start_handler ::
  "(string \<Rightarrow> string) \<Rightarrow> nat \<Rightarrow> chat_request \<Rightarrow> state \<Rightarrow> res \<times> state" where
  "start_handler unicode now req st =
     (if \<not> truthy (req_agentName req) then
        (res_json (ErrorBody ''Agent name is required'') (res_status 400 res0), st)
      else
        (case getOrCreateChatSession unicode now (text_of (req_agentName req)) (req_sessionId req) st of
           (Inl err, st') \<Rightarrow> (res_json (ErrorBody (error_message err)) (res_status 400 res0), st')
         | (Inr r, st') \<Rightarrow>
             (res_json (StartBody (sessionId r) (agentName r)
                          (''Chat session started with '' @ agentName r)) res0, st')))"

text \<open>
  \<^verbatim>\<open>POST /api/chat/message\<close>. \<open>now\<close> is \<^verbatim>\<open>Date.now()\<close> at line 36, \<open>outcome\<close> what
  \<^verbatim>\<open>await chatSession.chat.prompt(message)\<close> gives (the response, or the error it throws),
  \<open>now'\<close> is \<^verbatim>\<open>Date.now()\<close> at line 103 and \<open>date\<close> is \<^verbatim>\<open>new Date()\<close> at line 107.
\<close>

definition message_handler ::
  "(string \<Rightarrow> string) \<Rightarrow> nat \<Rightarrow> error + string \<Rightarrow> nat \<Rightarrow> nat \<Rightarrow> chat_request \<Rightarrow> state
     \<Rightarrow> res \<times> state" where
  "message_handler unicode now outcome now' date req st =
     (if \<not> truthy (req_message req) then
        (res_json (ErrorBody ''Message is required'') (res_status 400 res0), st)
      else
        (case resolve unicode now req st of
           (NoTarget, st') \<Rightarrow>
             (res_json (ErrorBody ''Either sessionId or agentName is required'')
                (res_status 400 res0), st')
         | (Thrown err, st') \<Rightarrow>
             (res_json (FailureBody ''Failed to process message'' (error_message err))
                (res_status 500 res0), st')
         | (Resolved chatSession, st') \<Rightarrow>
             let message = text_of (req_message req);
                 st'' = st'\<lparr>prompted := prompted st' @ [(chat chatSession, message)]\<rparr>
             in (case outcome of
                   Inl err \<Rightarrow>
                     (res_json (FailureBody ''Failed to process message'' (error_message err))
                        (res_status 500 res0), st'')
                 | Inr response \<Rightarrow>
                     (res_json
                        (MessageBody
                           (or_session_key (req_sessionId req) (agentName chatSession) now')
                           (agentName chatSession) message response date) res0, st''))))"

text \<open>
  Events of the agent's stream. The route listens to \<^verbatim>\<open>TLLMEvent.Content\<close>, \<^verbatim>\<open>ToolCall\<close>,
  \<^verbatim>\<open>End\<close> and \<^verbatim>\<open>Error\<close>; an event of any other kind has no listener. A tool call carries
  \<^verbatim>\<open>toolCall?.tool?.name\<close> and \<^verbatim>\<open>toolCall?.tool?.arguments\<close>, each possibly undefined.
\<close>

datatype event =
    Content string
  | ToolCall "string option" "string option"
  | End
  | Error string
  | Other string

text \<open>The four listeners (lines 151--173); none of them looks at what was sent before.\<close>

fun on_event :: "event \<Rightarrow> res \<Rightarrow> res" where
  "on_event (Content content) r = res_write (ContentFrame content) r"
| "on_event (ToolCall tool arguments) r = res_write (ToolCallFrame tool arguments) r"
| "on_event End r = res_end (res_write EndFrame r)"
| "on_event (Error m) r = res_end (res_write (ErrorFrame m) r)"
| "on_event (Other k) r = r"

definition relay :: "event list \<Rightarrow> res \<Rightarrow> res" where
  "relay events r = fold on_event events r"

text \<open>
  \<^verbatim>\<open>POST /api/chat/stream\<close>. \<open>now\<close> is \<^verbatim>\<open>Date.now()\<close> at line 36, \<open>now'\<close> is \<^verbatim>\<open>Date.now()\<close>
  at line 144, and \<open>outcome\<close> is what \<^verbatim>\<open>await chatSession.chat.prompt(message).stream()\<close>
  gives: the error it throws, or the stream, given by the events it has emitted so far.
  The \<^verbatim>\<open>catch\<close> of lines 174--178 receives both an exception of the resolution (before
  \<^verbatim>\<open>writeHead\<close>) and one of the prompt (after the start frame).
\<close>

definition stream_handler ::
  "(string \<Rightarrow> string) \<Rightarrow> nat \<Rightarrow> nat \<Rightarrow> error + event list \<Rightarrow> chat_request \<Rightarrow> state
     \<Rightarrow> res \<times> state" where
  "stream_handler unicode now now' outcome req st =
     (if \<not> truthy (req_message req) then
        (res_json (ErrorBody ''Message is required'') (res_status 400 res0), st)
      else
        (case resolve unicode now req st of
           (NoTarget, st') \<Rightarrow>
             (res_json (ErrorBody ''Either sessionId or agentName is required'')
                (res_status 400 res0), st')
         | (Thrown err, st') \<Rightarrow>
             (res_end (res_write (ErrorFrame (error_message err)) res0), st')
         | (Resolved chatSession, st') \<Rightarrow>
             let message = text_of (req_message req);
                 r = res_write
                       (StartFrame
                          (or_session_key (req_sessionId req) (agentName chatSession) now')
                          (agentName chatSession))
                       (res_writeHead res0);
                 st'' = st'\<lparr>prompted := prompted st' @ [(chat chatSession, message)]\<rparr>
             in (case outcome of
                   Inl err \<Rightarrow> (res_end (res_write (ErrorFrame (error_message err)) r), st'')
                 | Inr events \<Rightarrow> (relay events r, st''))))"

text \<open>\<^verbatim>\<open>DELETE /api/chat/sessions/:sessionId\<close>\<close>

definition delete_handler :: "string \<Rightarrow> state \<Rightarrow> res \<times> state" where
  "delete_handler sid st =
     (if sid |\<in>| fmdom (chatSessions st) then
        (res_json (NoticeBody ''Session deleted successfully'') res0,
         st\<lparr>chatSessions := fmdrop sid (chatSessions st)\<rparr>)
      else (res_json (ErrorBody ''Session not found'') (res_status 404 res0), st))"

text \<open>
  The requests that reach the registry, each with the clock readings and the answer of the
  agent runtime it meets, and a run of the server over a list of them. (The three
  \<^verbatim>\<open>GET\<close> routes never write \<^verbatim>\<open>chatSessions\<close>.)
\<close>

datatype request =
    PostStart nat chat_request
  | PostMessage nat "error + string" nat nat chat_request
  | PostStream nat nat "error + event list" chat_request
  | DeleteSession string

fun handle :: "(string \<Rightarrow> string) \<Rightarrow> request \<Rightarrow> state \<Rightarrow> res \<times> state" where
  "handle unicode (PostStart now req) st = start_handler unicode now req st"
| "handle unicode (PostMessage now outcome now' date req) st =
     message_handler unicode now outcome now' date req st"
| "handle unicode (PostStream now now' outcome req) st =
     stream_handler unicode now now' outcome req st"
| "handle unicode (DeleteSession sid) st = delete_handler sid st"

definition run :: "(string \<Rightarrow> string) \<Rightarrow> request list \<Rightarrow> state \<Rightarrow> state" where
  "run unicode reqs st = fold (\<lambda>rq s. snd (handle unicode rq s)) reqs st"

subsection \<open>Notions used to state the properties\<close>

text \<open>
  The letters of ASCII, each capital with its small letter. Two characters are the same
  letter if they are equal or one is the capital of the other; two names are case variants
  of each other if they are so character by character.
\<close>

definition letter_pairs :: "(char \<times> char) list" where
  "letter_pairs = zip ''ABCDEFGHIJKLMNOPQRSTUVWXYZ'' ''abcdefghijklmnopqrstuvwxyz''"

definition same_letter :: "char \<Rightarrow> char \<Rightarrow> bool" where
  "same_letter c d = (c = d \<or> (c, d) \<in> set letter_pairs \<or> (d, c) \<in> set letter_pairs)"

definition case_variant :: "string \<Rightarrow> string \<Rightarrow> bool" where
  "case_variant a b = list_all2 same_letter a b"

text \<open>
  The alias table of the specification, and the names it covers: an ASCII name that is a
  case variant of an alias, and any other name whose lower-case form by the Unicode tables
  is an alias.
\<close>

fun aliases :: "agent \<Rightarrow> string list" where
  "aliases BookAssistantAgent = [''book'', ''book-assistant'']"
| "aliases CryptoAssistantAgent = [''crypto'', ''crypto-assistant'']"

definition names :: "(string \<Rightarrow> string) \<Rightarrow> agent \<Rightarrow> string \<Rightarrow> bool" where
  "names unicode a n =
     (if list_all is_ascii n then list_ex (case_variant n) (aliases a)
      else list_ex (\<lambda>alias. unicode n = alias) (aliases a))"

text \<open>
  For the examples: the name \<^verbatim>\<open>BOO\<close> followed by the Kelvin sign (U+212A, in UTF-8 the
  bytes E2 84 AA), whose lower-case form in Unicode is \<^verbatim>\<open>book\<close>, and a stand-in for the
  Unicode tables that knows this one name.
\<close>

definition boo_kelvin :: string where
  "boo_kelvin = ''BOO'' @ [CHR 0xE2, CHR 0x84, CHR 0xAA]"

definition kelvin_table :: "string \<Rightarrow> string" where
  "kelvin_table s = (if s = boo_kelvin then ''book'' else s)"

text \<open>The state in which a new chat for agent \<open>a\<close> is stored under key \<open>k\<close> and name \<open>name\<close>.\<close>

definition store_new :: "agent \<Rightarrow> string \<Rightarrow> string \<Rightarrow> state \<Rightarrow> state" where
  "store_new a name k st =
     (snd (agent_chat a k True st))
       \<lparr>chatSessions :=
          fmupd k \<lparr>chat = fst (agent_chat a k True st), agentName = name\<rparr> (chatSessions st)\<rparr>"

text \<open>
  Frames by kind, and the frames a list of stream events is relayed to: one frame for each
  content and tool-call event, in order, up to and including the frame of the first
  \<open>End\<close> or \<open>Error\<close> event.
\<close>

fun is_start :: "frame \<Rightarrow> bool" where
  "is_start (StartFrame s a) = True"
| "is_start f = False"

fun terminal :: "frame \<Rightarrow> bool" where
  "terminal EndFrame = True"
| "terminal (ErrorFrame m) = True"
| "terminal f = False"

fun relayed :: "event list \<Rightarrow> frame list" where
  "relayed [] = []"
| "relayed (Content content # es) = ContentFrame content # relayed es"
| "relayed (ToolCall tool arguments # es) = ToolCallFrame tool arguments # relayed es"
| "relayed (End # es) = [EndFrame]"
| "relayed (Error m # es) = [ErrorFrame m]"
| "relayed (Other k # es) = relayed es"


fun heard :: "event \<Rightarrow> bool" where
  "heard (Other k) = False"
| "heard ev = True"



text \<open>The chat objects built so far for the session id \<open>k\<close>.\<close>

definition chats_for :: "string \<Rightarrow> state \<Rightarrow> chat_handle list" where
  "chats_for k st = filter (\<lambda>c. chat_id c = k) (constructed st)"

text \<open>
  The two things a request other than a deletion can do to the registry and to the chat
  objects: nothing, or store one new chat under a key that was free.
\<close>

definition grows :: "state \<Rightarrow> state \<Rightarrow> bool" where
  "grows st st' \<longleftrightarrow>
     (chatSessions st' = chatSessions st \<and> constructed st' = constructed st) \<or>
     (\<exists>a name k. fmlookup (chatSessions st) k = None \<and> k \<noteq> [] \<and>
        chatSessions st' = chatSessions (store_new a name k st) \<and>
        constructed st' = constructed (store_new a name k st))"

text \<open>
  A state used in the examples: the registry after
  \<^verbatim>\<open>POST /api/chat/start {agentName: "book", sessionId: "s1"}\<close> on the empty server.
\<close>

definition s1_chat :: chat_handle where
  "s1_chat = \<lparr>chat_ref = 0, chat_agent = BookAssistantAgent, chat_id = ''s1'',
               chat_persist = True\<rparr>"

definition s1_state :: state where
  "s1_state = \<lparr>chatSessions = fmupd ''s1'' \<lparr>chat = s1_chat, agentName = ''book''\<rparr> fmempty,
                constructed = [s1_chat], prompted = []\<rparr>"

text \<open>A list of requests used in the examples; none of them deletes \<open>s1\<close>.\<close>

definition example_requests :: "request list" where
  "example_requests =
     [PostMessage 1 (Inr ''fine'') 2 3
        \<lparr>req_sessionId = Some ''s1'', req_message = Some ''hi'', req_agentName = Some ''crypto''\<rparr>,
      PostStart 4 \<lparr>req_sessionId = Some ''s1'', req_message = None, req_agentName = Some ''crypto''\<rparr>,
      PostStream 5 6 (Inr [Content ''a'', End])
        \<lparr>req_sessionId = None, req_message = Some ''hi'', req_agentName = Some ''crypto''\<rparr>,
      DeleteSession ''s2'']"

section \<open>Properties\<close>

subsection \<open>The response object\<close>

lemma res0_fields [simp]:
  "statusCode res0 = 200" "event_stream res0 = False" "sent res0 = None" "calls res0 = []"
  "written res0 = []" "write_errors res0 = []" "ended res0 = False"
  by (simp_all add: res0_def)

lemma res_status_fields [simp]:
  "statusCode (res_status n r) = n" "event_stream (res_status n r) = event_stream r"
  "sent (res_status n r) = sent r" "calls (res_status n r) = calls r"
  "written (res_status n r) = written r" "write_errors (res_status n r) = write_errors r"
  "ended (res_status n r) = ended r"
  by (simp_all add: res_status_def)

lemma res_json_fields [simp]:
  "statusCode (res_json b r) = statusCode r" "event_stream (res_json b r) = event_stream r"
  "sent (res_json b r) = Some b" "calls (res_json b r) = calls r"
  "written (res_json b r) = written r" "write_errors (res_json b r) = write_errors r"
  "ended (res_json b r) = True"
  by (simp_all add: res_json_def)

lemma res_writeHead_fields [simp]:
  "statusCode (res_writeHead r) = 200" "event_stream (res_writeHead r) = True"
  "sent (res_writeHead r) = sent r" "calls (res_writeHead r) = calls r"
  "written (res_writeHead r) = written r" "write_errors (res_writeHead r) = write_errors r"
  "ended (res_writeHead r) = ended r"
  by (simp_all add: res_writeHead_def)

lemma res_write_fields [simp]:
  "statusCode (res_write f r) = statusCode r" "event_stream (res_write f r) = event_stream r"
  "sent (res_write f r) = sent r" "ended (res_write f r) = ended r"
  "calls (res_write f r) = calls r @ [f]"
  "written (res_write f r) = (if ended r then written r else written r @ [f])"
  "write_errors (res_write f r) =
     (if ended r then write_errors r @ [WriteAfterEnd] else write_errors r)"
  by (simp_all add: res_write_def)

lemma res_end_fields [simp]:
  "statusCode (res_end r) = statusCode r" "event_stream (res_end r) = event_stream r"
  "sent (res_end r) = sent r" "calls (res_end r) = calls r"
  "written (res_end r) = written r" "write_errors (res_end r) = write_errors r"
  "ended (res_end r) = True"
  by (simp_all add: res_end_def)

subsection \<open>Resolving an agent name\<close>

lemma of_char_toLowerChar:
  "(of_char (toLowerChar c) :: nat) = (if is_upper c then of_char c + 32 else of_char c)"
  by (simp add: toLowerChar_def is_upper_def)

lemma letter_pair_codes:
  "(c, d) \<in> set letter_pairs \<Longrightarrow> is_upper c \<and> (of_char d :: nat) = of_char c + 32"
  by (auto simp: letter_pairs_def is_upper_def)

lemma capital_codes: "(of_char ` set ''ABCDEFGHIJKLMNOPQRSTUVWXYZ'' :: nat set) = {65..90}"
  by (auto simp: atLeastAtMost_def, arith)

lemma capital_letter_pair:
  assumes "is_upper c" "(of_char d :: nat) = of_char c + 32"
  shows "(c, d) \<in> set letter_pairs"
proof -
  from assms(1) have "(of_char c :: nat) \<in> of_char ` set ''ABCDEFGHIJKLMNOPQRSTUVWXYZ''"
    unfolding capital_codes by (simp add: is_upper_def)
  then obtain u where u: "u \<in> set ''ABCDEFGHIJKLMNOPQRSTUVWXYZ''"
    "(of_char c :: nat) = of_char u"
    by blast
  then have cu: "c = u" by simp
  have "map fst letter_pairs = ''ABCDEFGHIJKLMNOPQRSTUVWXYZ''"
    unfolding letter_pairs_def by (rule map_fst_zip) simp
  with u(1) have "u \<in> fst ` set letter_pairs" by (metis set_map)
  then obtain l where l: "(u, l) \<in> set letter_pairs" by force
  from letter_pair_codes [OF l] assms(2) cu have "(of_char d :: nat) = of_char l" by simp
  then have "d = l" by simp
  with l cu show ?thesis by simp
qed

lemma letter_pair_iff:
  "(c, d) \<in> set letter_pairs \<longleftrightarrow> is_upper c \<and> (of_char d :: nat) = of_char c + 32"
  using letter_pair_codes capital_letter_pair by blast

lemma toLowerChar_eq_iff: "toLowerChar c = toLowerChar d \<longleftrightarrow> same_letter c d"
proof -
  have "toLowerChar c = toLowerChar d \<longleftrightarrow>
        (of_char (toLowerChar c) :: nat) = of_char (toLowerChar d)"
    by simp
  also have "\<dots> \<longleftrightarrow> same_letter c d"
    unfolding of_char_toLowerChar same_letter_def letter_pair_iff
    by (cases "c = d") (auto simp: is_upper_def)
  finally show ?thesis .
qed

lemma map_toLowerChar_eq_iff: "map toLowerChar a = map toLowerChar b \<longleftrightarrow> case_variant a b"
  unfolding case_variant_def
proof (induction a arbitrary: b)
  case Nil
  then show ?case by auto
next
  case (Cons x xs)
  then show ?case by (cases b) (auto simp: toLowerChar_eq_iff)
qed

lemma same_letter_ascii: "same_letter c d \<Longrightarrow> is_ascii c \<Longrightarrow> is_ascii d"
  unfolding same_letter_def letter_pair_iff by (auto simp: is_ascii_def is_upper_def)

lemma case_variant_ascii:
  "case_variant a b \<Longrightarrow> list_all is_ascii a \<Longrightarrow> list_all is_ascii b"
  unfolding case_variant_def
  by (induction a b rule: list_all2_induct) (auto dest: same_letter_ascii)

lemma map_toLowerChar_aliases:
  "map toLowerChar ''book'' = ''book''"
  "map toLowerChar ''book-assistant'' = ''book-assistant''"
  "map toLowerChar ''crypto'' = ''crypto''"
  "map toLowerChar ''crypto-assistant'' = ''crypto-assistant''"
  by (simp_all add: toLowerChar_def is_upper_def)

lemma map_toLowerChar_is_alias:
  "map toLowerChar n = ''book'' \<longleftrightarrow> case_variant n ''book''"
  "map toLowerChar n = ''book-assistant'' \<longleftrightarrow> case_variant n ''book-assistant''"
  "map toLowerChar n = ''crypto'' \<longleftrightarrow> case_variant n ''crypto''"
  "map toLowerChar n = ''crypto-assistant'' \<longleftrightarrow> case_variant n ''crypto-assistant''"
  using map_toLowerChar_eq_iff [of n "''book''"]
    map_toLowerChar_eq_iff [of n "''book-assistant''"]
    map_toLowerChar_eq_iff [of n "''crypto''"]
    map_toLowerChar_eq_iff [of n "''crypto-assistant''"]
  unfolding map_toLowerChar_aliases by blast+

lemma getAgent_Inr_iff: "getAgent unicode n = Inr a \<longleftrightarrow> names unicode a n"
proof (cases "list_all is_ascii n")
  case True
  then show ?thesis
    unfolding names_def
    by (cases a)
      (simp_all add: map_toLowerChar_is_alias [symmetric] getAgent_def toLowerCase_def Let_def)
next
  case False
  then show ?thesis
    unfolding names_def
    by (cases a) (auto simp: getAgent_def toLowerCase_def Let_def)
qed

lemma getAgent_Inl: "getAgent unicode n = Inl e \<Longrightarrow> e = UnknownAgent n"
  by (simp add: getAgent_def Let_def split: if_splits)

lemma getAgent_unknown_iff:
  "getAgent unicode n = Inl (UnknownAgent n) \<longleftrightarrow> (\<forall>a. \<not> names unicode a n)"
proof
  assume "getAgent unicode n = Inl (UnknownAgent n)"
  then show "\<forall>a. \<not> names unicode a n" by (simp add: getAgent_Inr_iff [symmetric])
next
  assume none: "\<forall>a. \<not> names unicode a n"
  show "getAgent unicode n = Inl (UnknownAgent n)"
  proof (cases "getAgent unicode n")
    case (Inl e)
    then show ?thesis using getAgent_Inl by blast
  next
    case (Inr a)
    then show ?thesis using none by (simp add: getAgent_Inr_iff)
  qed
qed

lemma getAgent_same_lower_case:
  assumes "toLowerCase unicode n = toLowerCase unicode m"
  shows "getAgent unicode n = Inr a \<longleftrightarrow> getAgent unicode m = Inr a"
  using assms by (simp add: getAgent_def Let_def)

lemma getAgent_case_variant:
  assumes "case_variant n m" "list_all is_ascii n"
  shows "getAgent unicode n = Inr a \<longleftrightarrow> getAgent unicode m = Inr a"
proof -
  from assms have "list_all is_ascii m" by (rule case_variant_ascii)
  with assms have "toLowerCase unicode n = toLowerCase unicode m"
    by (simp add: toLowerCase_def map_toLowerChar_eq_iff)
  then show ?thesis by (rule getAgent_same_lower_case)
qed

subsection \<open>Getting or creating a session\<close>

lemma session_key_nonempty: "session_key name now \<noteq> []"
  by (simp add: session_key_def)

lemma or_session_key_nonempty: "or_session_key sid name now \<noteq> []"
  by (simp add: or_session_key_def session_key_nonempty split: option.splits)

lemma or_session_key_truthy: "truthy sid \<Longrightarrow> or_session_key sid name now = text_of sid"
  by (cases sid) (simp_all add: or_session_key_def)

lemma or_session_key_falsy: "\<not> truthy sid \<Longrightarrow> or_session_key sid name now = session_key name now"
  by (cases sid) (simp_all add: or_session_key_def)

lemma store_new_fields [simp]:
  "chatSessions (store_new a name k st) = fmupd k \<lparr>chat = fst (agent_chat a k True st), agentName = name\<rparr> (chatSessions st)"
  "constructed (store_new a name k st) = constructed st @ [fst (agent_chat a k True st)]"
  "prompted (store_new a name k st) = prompted st"
  by (simp_all add: store_new_def agent_chat_def Let_def)

lemma agent_chat_fst [simp]:
  "chat_id (fst (agent_chat a k p st)) = k" "chat_ref (fst (agent_chat a k p st)) = length (constructed st)"
  "chat_agent (fst (agent_chat a k p st)) = a" "chat_persist (fst (agent_chat a k p st)) = p"
  by (simp_all add: agent_chat_def Let_def)

lemma getOrCreate_unknown:
  "getAgent unicode name = Inl err \<Longrightarrow> getOrCreateChatSession unicode now name sid st = (Inl err, st)"
  by (simp add: getOrCreateChatSession_def)

lemma getOrCreate_existing:
  assumes "getAgent unicode name = Inr a" "fmlookup (chatSessions st) (or_session_key sid name now) = Some e"
  shows "getOrCreateChatSession unicode now name sid st =
           (Inr \<lparr>chat = chat e, agentName = agentName e, sessionId = or_session_key sid name now\<rparr>, st)"
  using assms by (simp add: getOrCreateChatSession_def Let_def fmlookup_dom_iff)

lemma getOrCreate_new:
  assumes "getAgent unicode name = Inr a" "fmlookup (chatSessions st) (or_session_key sid name now) = None"
  shows "getOrCreateChatSession unicode now name sid st =
           (Inr \<lparr>chat = fst (agent_chat a (or_session_key sid name now) True st), agentName = name,
                 sessionId = or_session_key sid name now\<rparr>,
            store_new a name (or_session_key sid name now) st)"
  using assms by (simp add: getOrCreateChatSession_def Let_def fmlookup_dom_iff store_new_def agent_chat_def)

lemma getOrCreate_cases:
  obtains (unknown) err where "getAgent unicode name = Inl err" "getOrCreateChatSession unicode now name sid st = (Inl err, st)"
  | (existing) a e where "getAgent unicode name = Inr a" "fmlookup (chatSessions st) (or_session_key sid name now) = Some e"
       "getOrCreateChatSession unicode now name sid st =
           (Inr \<lparr>chat = chat e, agentName = agentName e, sessionId = or_session_key sid name now\<rparr>, st)"
  | (new) a where "getAgent unicode name = Inr a" "fmlookup (chatSessions st) (or_session_key sid name now) = None"
       "getOrCreateChatSession unicode now name sid st =
           (Inr \<lparr>chat = fst (agent_chat a (or_session_key sid name now) True st), agentName = name,
                 sessionId = or_session_key sid name now\<rparr>,
            store_new a name (or_session_key sid name now) st)"
proof (cases "getAgent unicode name")
  case (Inl err)
  then show ?thesis using unknown getOrCreate_unknown by blast
next
  case (Inr a)
  show ?thesis
  proof (cases "fmlookup (chatSessions st) (or_session_key sid name now)")
    case None
    then show ?thesis using new Inr getOrCreate_new by blast
  next
    case (Some e)
    then show ?thesis using existing Inr getOrCreate_existing by blast
  qed
qed

subsection \<open>Session resolution\<close>

lemma lookup_session_Some:
  "lookup_session sid st = Some e \<longleftrightarrow> truthy sid \<and> fmlookup (chatSessions st) (text_of sid) = Some e"
  by (simp add: lookup_session_def)

lemma resolve_found:
  "lookup_session (req_sessionId req) st = Some e \<Longrightarrow> resolve unicode now req st = (Resolved e, st)"
  by (simp add: resolve_def)

lemma resolve_no_target:
  "lookup_session (req_sessionId req) st = None \<Longrightarrow> \<not> truthy (req_agentName req) \<Longrightarrow>
   resolve unicode now req st = (NoTarget, st)"
  by (simp add: resolve_def)

lemma resolve_unknown:
  "lookup_session (req_sessionId req) st = None \<Longrightarrow> truthy (req_agentName req) \<Longrightarrow>
   getAgent unicode (text_of (req_agentName req)) = Inl err \<Longrightarrow>
   resolve unicode now req st = (Thrown err, st)"
  by (simp add: resolve_def getOrCreate_unknown)

lemma lookup_session_None_key:
  assumes "lookup_session sid st = None" "truthy sid"
  shows "fmlookup (chatSessions st) (or_session_key sid name now) = None"
  using assms by (simp add: lookup_session_def or_session_key_truthy)

lemma resolve_known:
  assumes "lookup_session (req_sessionId req) st = None" "truthy (req_agentName req)"
    "getAgent unicode (text_of (req_agentName req)) = Inr a"
  shows "resolve unicode now req st =
     (let name = text_of (req_agentName req); k = or_session_key (req_sessionId req) name now in
      case fmlookup (chatSessions st) k of
        Some e \<Rightarrow> (Resolved e, st)
      | None \<Rightarrow> (Resolved \<lparr>chat = fst (agent_chat a k True st), agentName = name\<rparr>,
                 store_new a name k st))"
proof (cases "fmlookup (chatSessions st)
                (or_session_key (req_sessionId req) (text_of (req_agentName req)) now)")
  case None
  with assms show ?thesis
    by (simp add: resolve_def Let_def getOrCreate_new [OF assms(3) None])
next
  case (Some e)
  with assms show ?thesis
    by (simp add: resolve_def Let_def getOrCreate_existing [OF assms(3) Some])
qed

lemma grows_refl: "grows st st"
  by (simp add: grows_def)

lemma grows_store_new:
  "fmlookup (chatSessions st) k = None \<Longrightarrow> k \<noteq> [] \<Longrightarrow> grows st (store_new a name k st)"
  unfolding grows_def by blast

lemma getOrCreate_grows: "grows st (snd (getOrCreateChatSession unicode now name sid st))"
  by (rule getOrCreate_cases [of unicode name now sid st])
    (simp_all add: grows_refl grows_store_new or_session_key_nonempty del: store_new_fields)

lemma resolve_grows: "grows st (snd (resolve unicode now req st))"
proof (cases "lookup_session (req_sessionId req) st")
  case (Some e)
  then show ?thesis by (simp add: resolve_found grows_refl)
next
  case None
  show ?thesis
  proof (cases "truthy (req_agentName req)")
    case False
    with None show ?thesis by (simp add: resolve_no_target grows_refl)
  next
    case True
    show ?thesis
    proof (cases "getAgent unicode (text_of (req_agentName req))")
      case (Inl err)
      with None True show ?thesis by (simp add: resolve_unknown grows_refl)
    next
      case (Inr a)
      show ?thesis
        unfolding resolve_known [OF None True Inr] Let_def
        by (simp add: grows_refl grows_store_new or_session_key_nonempty
              del: store_new_fields split: option.splits)
    qed
  qed
qed

lemma lookup_session_None_iff:
  "lookup_session sid st = None \<longleftrightarrow>
     \<not> truthy sid \<or> fmlookup (chatSessions st) (text_of sid) = None"
  by (simp add: lookup_session_def)

lemma resolve_Resolved_key:
  assumes "resolve unicode now req st = (Resolved cs, st1)"
  shows "fmlookup (chatSessions st1)
           (or_session_key (req_sessionId req) (text_of (req_agentName req)) now) = Some cs"
proof (cases "lookup_session (req_sessionId req) st")
  case (Some e)
  with assms resolve_found [OF Some, of unicode now] show ?thesis
    by (simp add: lookup_session_Some or_session_key_truthy)
next
  case None
  show ?thesis
  proof (cases "truthy (req_agentName req)")
    case False
    with None assms show ?thesis by (simp add: resolve_no_target)
  next
    case True
    show ?thesis
    proof (cases "getAgent unicode (text_of (req_agentName req))")
      case (Inl err)
      with None True assms show ?thesis by (simp add: resolve_unknown)
    next
      case (Inr a)
      from assms show ?thesis
        unfolding resolve_known [OF None True Inr] Let_def
        by (auto split: option.splits)
    qed
  qed
qed

lemma grows_lookup:
  assumes "grows st st'" "fmlookup (chatSessions st) k = Some e"
  shows "fmlookup (chatSessions st') k = Some e"
  using assms unfolding grows_def by auto

subsection \<open>What the routes do to the state\<close>

lemma start_handler_state:
  "snd (start_handler unicode now req st) =
     (if truthy (req_agentName req)
      then snd (getOrCreateChatSession unicode now (text_of (req_agentName req)) (req_sessionId req) st)
      else st)"
  by (simp add: start_handler_def split: prod.splits sum.splits)

lemma message_handler_state:
  "chatSessions (snd (message_handler unicode now outcome now' date req st)) =
     chatSessions (if truthy (req_message req) then snd (resolve unicode now req st) else st)"
  "constructed (snd (message_handler unicode now outcome now' date req st)) =
     constructed (if truthy (req_message req) then snd (resolve unicode now req st) else st)"
  by (simp_all add: message_handler_def Let_def split: prod.splits sum.splits resolution.splits)

lemma stream_handler_state:
  "chatSessions (snd (stream_handler unicode now now' outcome req st)) =
     chatSessions (if truthy (req_message req) then snd (resolve unicode now req st) else st)"
  "constructed (snd (stream_handler unicode now now' outcome req st)) =
     constructed (if truthy (req_message req) then snd (resolve unicode now req st) else st)"
  by (simp_all add: stream_handler_def Let_def split: prod.splits sum.splits resolution.splits)

lemma delete_handler_state:
  "chatSessions (snd (delete_handler sid st)) = fmdrop sid (chatSessions st)"
  "constructed (snd (delete_handler sid st)) = constructed st"
  by (simp_all add: delete_handler_def fmdrop_idle)

lemma handle_grows:
  assumes "\<And>sid. rq \<noteq> DeleteSession sid"
  shows "grows st (snd (handle unicode rq st))"
proof (cases rq)
  case (PostStart now req)
  show ?thesis
    using getOrCreate_grows [of st unicode now "text_of (req_agentName req)" "req_sessionId req"]
    unfolding PostStart handle.simps start_handler_state
    by (simp add: grows_refl)
next
  case (PostMessage now outcome now' date req)
  show ?thesis
    using resolve_grows [of st unicode now req]
    unfolding PostMessage handle.simps grows_def message_handler_state
    by (cases "truthy (req_message req)") simp_all
next
  case (PostStream now now' outcome req)
  show ?thesis
    using resolve_grows [of st unicode now req]
    unfolding PostStream handle.simps grows_def stream_handler_state
    by (cases "truthy (req_message req)") simp_all
next
  case (DeleteSession sid)
  with assms show ?thesis by blast
qed

lemma chats_for_store_new:
  "chats_for k (store_new a name k' st) =
     (if k' = k then chats_for k st @ [fst (agent_chat a k' True st)] else chats_for k st)"
  by (simp add: chats_for_def)

text \<open>While a session id is in the registry, no request but its deletion changes its entry
  or builds a chat for it.\<close>

lemma handle_keeps_entry:
  assumes "fmlookup (chatSessions st) k = Some e" "rq \<noteq> DeleteSession k"
  shows "fmlookup (chatSessions (snd (handle unicode rq st))) k = Some e \<and>
         chats_for k (snd (handle unicode rq st)) = chats_for k st"
proof (cases "\<exists>sid. rq = DeleteSession sid")
  case True
  then obtain sid where rq: "rq = DeleteSession sid" by blast
  with assms have "sid \<noteq> k" by blast
  with assms rq show ?thesis by (simp add: delete_handler_state chats_for_def)
next
  case False
  then have "\<And>sid. rq \<noteq> DeleteSession sid" by blast
  from handle_grows [OF this, of st unicode] show ?thesis
    unfolding grows_def
  proof
    assume "chatSessions (snd (handle unicode rq st)) = chatSessions st \<and>
          constructed (snd (handle unicode rq st)) = constructed st"
    with assms show ?thesis by (simp add: chats_for_def)
  next
    assume "\<exists>a name k. fmlookup (chatSessions st) k = None \<and> k \<noteq> [] \<and>
            chatSessions (snd (handle unicode rq st)) = chatSessions (store_new a name k st) \<and>
            constructed (snd (handle unicode rq st)) = constructed (store_new a name k st)"
    then obtain a name k' where free: "fmlookup (chatSessions st) k' = None"
      and reg: "chatSessions (snd (handle unicode rq st)) = chatSessions (store_new a name k' st)"
      and obj: "constructed (snd (handle unicode rq st)) = constructed (store_new a name k' st)"
      by blast
    from free assms have "k' \<noteq> k" by auto
    with assms reg obj show ?thesis by (simp add: chats_for_def)
  qed
qed

lemma run_Cons: "run unicode (rq # reqs) st = run unicode reqs (snd (handle unicode rq st))"
  by (simp add: run_def)

lemma run_Nil: "run unicode [] st = st"
  by (simp add: run_def)

lemma run_keeps_entry:
  assumes "fmlookup (chatSessions st) k = Some e" "DeleteSession k \<notin> set reqs"
  shows "fmlookup (chatSessions (run unicode reqs st)) k = Some e \<and>
         chats_for k (run unicode reqs st) = chats_for k st"
  using assms
proof (induction reqs arbitrary: st)
  case Nil
  then show ?case by (simp add: run_Nil)
next
  case (Cons rq reqs)
  from Cons.prems have "rq \<noteq> DeleteSession k" by auto
  from handle_keeps_entry [OF Cons.prems(1) this, of unicode] Cons.IH [of "snd (handle unicode rq st)"] Cons.prems(2)
  show ?case by (simp add: run_Cons)
qed

text \<open>From the empty server, and until it is deleted, a session id has at most one chat
  object, and has one only if it is in the registry.\<close>

lemma handle_once:
  assumes "length (chats_for k st) \<le> (if k |\<in>| fmdom (chatSessions st) then 1 else 0)"
    "rq \<noteq> DeleteSession k"
  shows "length (chats_for k (snd (handle unicode rq st)))
           \<le> (if k |\<in>| fmdom (chatSessions (snd (handle unicode rq st))) then 1 else 0)"
proof (cases "\<exists>sid. rq = DeleteSession sid")
  case True
  then obtain sid where rq: "rq = DeleteSession sid" by blast
  with assms have "sid \<noteq> k" by blast
  with assms rq show ?thesis by (simp add: delete_handler_state chats_for_def)
next
  case False
  then have "\<And>sid. rq \<noteq> DeleteSession sid" by blast
  from handle_grows [OF this, of st unicode] show ?thesis
    unfolding grows_def
  proof
    assume "chatSessions (snd (handle unicode rq st)) = chatSessions st \<and>
          constructed (snd (handle unicode rq st)) = constructed st"
    with assms show ?thesis by (simp add: chats_for_def)
  next
    assume "\<exists>a name k. fmlookup (chatSessions st) k = None \<and> k \<noteq> [] \<and>
            chatSessions (snd (handle unicode rq st)) = chatSessions (store_new a name k st) \<and>
            constructed (snd (handle unicode rq st)) = constructed (store_new a name k st)"
    then obtain a name k' where free: "fmlookup (chatSessions st) k' = None"
      and reg: "chatSessions (snd (handle unicode rq st)) = chatSessions (store_new a name k' st)"
      and obj: "constructed (snd (handle unicode rq st)) = constructed (store_new a name k' st)"
      by blast
    show ?thesis
    proof (cases "k' = k")
      case True
      with free have "k |\<notin>| fmdom (chatSessions st)" by (simp add: fmdom_notI)
      with assms have "chats_for k st = []" by simp
      with True reg obj show ?thesis by (simp add: chats_for_def)
    next
      case False
      with assms reg obj show ?thesis by (simp add: chats_for_def)
    qed
  qed
qed

lemma run_once:
  assumes "length (chats_for k st) \<le> (if k |\<in>| fmdom (chatSessions st) then 1 else 0)"
    "DeleteSession k \<notin> set reqs"
  shows "length (chats_for k (run unicode reqs st))
           \<le> (if k |\<in>| fmdom (chatSessions (run unicode reqs st)) then 1 else 0)"
  using assms
proof (induction reqs arbitrary: st)
  case Nil
  then show ?case by (simp add: run_Nil)
next
  case (Cons rq reqs)
  from Cons.prems have "rq \<noteq> DeleteSession k" by auto
  from handle_once [OF Cons.prems(1) this, of unicode] Cons.IH [of "snd (handle unicode rq st)"] Cons.prems(2)
  show ?case by (simp add: run_Cons)
qed

lemma resolve_unknown_state:
  assumes "getAgent unicode (text_of (req_agentName req)) = Inl err"
  shows "snd (resolve unicode now req st) = st"
proof (cases "lookup_session (req_sessionId req) st")
  case (Some e)
  then show ?thesis by (simp add: resolve_found)
next
  case None
  with assms show ?thesis
    by (cases "truthy (req_agentName req)") (simp_all add: resolve_no_target resolve_unknown)
qed

subsection \<open>Example states\<close>

lemma init_fields [simp]:
  "chatSessions init = fmempty" "constructed init = []" "prompted init = []"
  by (simp_all add: init_def)

lemma s1_state_fields [simp]:
  "chatSessions s1_state = fmupd ''s1'' \<lparr>chat = s1_chat, agentName = ''book''\<rparr> fmempty"
  "constructed s1_state = [s1_chat]" "prompted s1_state = []"
  by (simp_all add: s1_state_def)

lemma getAgent_examples:
  "getAgent unicode ''book'' = Inr BookAssistantAgent"
  "getAgent unicode ''crypto'' = Inr CryptoAssistantAgent"
  "getAgent unicode ''unknown-agent'' = Inl (UnknownAgent ''unknown-agent'')"
  by (simp_all add: getAgent_def toLowerCase_def toLowerChar_def is_upper_def is_ascii_def)

lemma s1_state_reached:
  "getOrCreateChatSession unicode now ''book'' (Some ''s1'') init =
     (Inr \<lparr>chat = s1_chat, agentName = ''book'', sessionId = ''s1''\<rparr>, s1_state)"
  by (simp add: getOrCreateChatSession_def getAgent_examples or_session_key_def agent_chat_def Let_def
        s1_state_def s1_chat_def init_def)

lemma case_variant_examples:
  "case_variant ''BOOK'' ''book''" "case_variant ''Book-Assistant'' ''book-assistant''"
  "case_variant ''cRyPtO'' ''crypto''" "case_variant ''CRYPTO-assistant'' ''crypto-assistant''"
  by (simp_all add: case_variant_def same_letter_def letter_pairs_def)

lemma names_unknown_agent:
  "\<not> names unicode BookAssistantAgent ''unknown-agent''"
  "\<not> names unicode CryptoAssistantAgent ''unknown-agent''"
  by (simp_all add: names_def case_variant_def is_ascii_def)

lemma ascii_examples:
  "list_all is_ascii ''BOOK''" "list_all is_ascii ''Book-Assistant''"
  "list_all is_ascii ''cRyPtO''" "list_all is_ascii ''CRYPTO-assistant''"
  "\<not> list_all is_ascii boo_kelvin"
  by (simp_all add: is_ascii_def boo_kelvin_def)

subsection \<open>Calling again for a stored session\<close>

lemma getOrCreate_present:
  assumes "fmlookup (chatSessions st) s = Some e" and "s \<noteq> []"
  shows "getOrCreateChatSession unicode now name (Some s) st =
           (case getAgent unicode name of
              Inr a \<Rightarrow> (Inr \<lparr>chat = chat e, agentName = agentName e, sessionId = s\<rparr>, st)
            | Inl err \<Rightarrow> (Inl (UnknownAgent name), st))"
proof (cases "getAgent unicode name")
  case (Inl err)
  then show ?thesis using getAgent_Inl [OF Inl] by (simp add: getOrCreate_unknown)
next
  case (Inr a)
  from assms have "fmlookup (chatSessions st) (or_session_key (Some s) name now) = Some e"
    by (simp add: or_session_key_def)
  from getOrCreate_existing [OF Inr this] assms Inr show ?thesis
    by (simp add: or_session_key_def)
qed

text \<open>What a successful call of getOrCreateChatSession leaves behind.\<close>

lemma getOrCreate_returned:
  assumes "getOrCreateChatSession unicode now name sid st = (Inr r, st1)"
  shows "\<exists>a. getAgent unicode name = Inr a" 
    and "sessionId r \<noteq> []"
    and "sessionId r = or_session_key sid name now"
    and "fmlookup (chatSessions st1) (sessionId r) = Some \<lparr>chat = chat r, agentName = agentName r\<rparr>"
    and "length (constructed st1) \<le> Suc (length (constructed st))"
    and "grows st st1"
proof -
  show "grows st st1" using getOrCreate_grows [of st unicode now name sid] assms by simp
  show "\<exists>a. getAgent unicode name = Inr a"
    using assms by (cases "getAgent unicode name") (simp_all add: getOrCreate_unknown)
  have "sessionId r = or_session_key sid name now
    \<and> fmlookup (chatSessions st1) (sessionId r) = Some \<lparr>chat = chat r, agentName = agentName r\<rparr>
    \<and> length (constructed st1) \<le> Suc (length (constructed st))"
    by (rule getOrCreate_cases [of unicode name now sid st]) (use assms in auto)
  then show "sessionId r = or_session_key sid name now"
    and "fmlookup (chatSessions st1) (sessionId r) = Some \<lparr>chat = chat r, agentName = agentName r\<rparr>"
    and "length (constructed st1) \<le> Suc (length (constructed st))"
    by blast+
  then show "sessionId r \<noteq> []" by (simp add: or_session_key_nonempty)
qed

lemma init_once: "length (chats_for k init) \<le> (if k |\<in>| fmdom (chatSessions init) then 1 else 0)"
  by (simp add: chats_for_def)

subsection \<open>The message route\<close>

lemma message_handler_no_message:
  "\<not> truthy (req_message req) \<Longrightarrow>
   message_handler unicode now outcome now' date req st =
     (res_json (ErrorBody ''Message is required'') (res_status 400 res0), st)"
  by (simp add: message_handler_def)

lemma message_handler_resolved:
  assumes "truthy (req_message req)" "resolve unicode now req st = (Resolved cs, st1)"
  shows "message_handler unicode now outcome now' date req st =
     (case outcome of
        Inl err \<Rightarrow>
          res_json (FailureBody ''Failed to process message'' (error_message err))
            (res_status 500 res0)
      | Inr response \<Rightarrow>
          res_json (MessageBody (or_session_key (req_sessionId req) (agentName cs) now')
                      (agentName cs) (text_of (req_message req)) response date) res0,
      st1\<lparr>prompted := prompted st1 @ [(chat cs, text_of (req_message req))]\<rparr>)"
  using assms by (simp add: message_handler_def Let_def split: sum.splits)

lemma message_handler_no_target:
  assumes "truthy (req_message req)" "resolve unicode now req st = (NoTarget, st1)"
  shows "message_handler unicode now outcome now' date req st =
     (res_json (ErrorBody ''Either sessionId or agentName is required'') (res_status 400 res0),
      st1)"
  using assms by (simp add: message_handler_def)

lemma message_handler_thrown:
  assumes "truthy (req_message req)" "resolve unicode now req st = (Thrown err, st1)"
  shows "message_handler unicode now outcome now' date req st =
     (res_json (FailureBody ''Failed to process message'' (error_message err))
        (res_status 500 res0), st1)"
  using assms by (simp add: message_handler_def)

subsection \<open>The relay\<close>

lemma relay_Nil [simp]: "relay [] r = r"
  by (simp add: relay_def)

lemma relay_Cons [simp]: "relay (ev # es) r = relay es (on_event ev r)"
  by (simp add: relay_def)

lemma on_event_ended:
  "ended r \<Longrightarrow> ended (on_event ev r) \<and> written (on_event ev r) = written r"
  by (cases ev) simp_all

lemma relay_ended:
  "ended r \<Longrightarrow> ended (relay es r) \<and> written (relay es r) = written r"
proof (induction es arbitrary: r)
  case Nil
  then show ?case by simp
next
  case (Cons ev es)
  from on_event_ended [OF Cons.prems, of ev] Cons.IH [of "on_event ev r"]
  show ?case by simp
qed


lemma relay_written:
  "\<not> ended r \<Longrightarrow>
   written (relay es r) = written r @ relayed es
   \<and> ended (relay es r) = list_ex terminal (relayed es)"
proof (induction es arbitrary: r rule: relayed.induct)
  case 1
  then show ?case by simp
next
  case (2 content es)
  from 2(2) 2(1) [of "on_event (Content content) r"] show ?case by simp
next
  case (3 tool arguments es)
  from 3(2) 3(1) [of "on_event (ToolCall tool arguments) r"] show ?case by simp
next
  case (4 es)
  from 4 relay_ended [of "on_event End r" es] show ?case by simp
next
  case (5 m es)
  from 5 relay_ended [of "on_event (Error m) r" es] show ?case by simp
next
  case (6 k es)
  from 6(2) 6(1) [of "on_event (Other k) r"] show ?case by simp
qed






lemma relayed_unheard: "list_all (\<lambda>e. \<not> heard e) es \<Longrightarrow> relayed es = []"
  by (induction es rule: relayed.induct) simp_all




lemma relayed_no_start: "list_all (\<lambda>f. \<not> is_start f) (relayed es)"
  by (induction es rule: relayed.induct) simp_all



subsection \<open>The stream route after the upgrade\<close>

lemma stream_handler_resolved:
  assumes "truthy (req_message req)" "resolve unicode now req st = (Resolved cs, st1)"
  shows "stream_handler unicode now now' outcome req st =
     (let r = res_write
                (StartFrame (or_session_key (req_sessionId req) (agentName cs) now')
                   (agentName cs))
                (res_writeHead res0)
      in case outcome of
           Inl err \<Rightarrow> res_end (res_write (ErrorFrame (error_message err)) r)
         | Inr events \<Rightarrow> relay events r,
      st1\<lparr>prompted := prompted st1 @ [(chat cs, text_of (req_message req))]\<rparr>)"
  using assms by (simp add: stream_handler_def Let_def split: sum.splits)

lemma show_nat_examples:
  "show_nat 5 = ''5''" "show_nat 1000 = ''1000''" "show_nat 1001 = ''1001''"
  by code_simp+


subsection \<open>The stream route before the upgrade\<close>

lemma stream_handler_no_message:
  "\<not> truthy (req_message req) \<Longrightarrow>
   stream_handler unicode now now' outcome req st =
     (res_json (ErrorBody ''Message is required'') (res_status 400 res0), st)"
  by (simp add: stream_handler_def)

lemma stream_handler_no_target:
  assumes "truthy (req_message req)" "resolve unicode now req st = (NoTarget, st1)"
  shows "stream_handler unicode now now' outcome req st =
     (res_json (ErrorBody ''Either sessionId or agentName is required'') (res_status 400 res0),
      st1)"
  using assms by (simp add: stream_handler_def)

lemma stream_handler_thrown:
  assumes "truthy (req_message req)" "resolve unicode now req st = (Thrown err, st1)"
  shows "stream_handler unicode now now' outcome req st =
     (res_end (res_write (ErrorFrame (error_message err)) res0), st1)"
  using assms by (simp add: stream_handler_def)

text \<open>An unknown agent name, with no session to fall back on, on the stream route.\<close>

lemma stream_handler_unknown_agent:
  assumes "truthy (req_message req)" "lookup_session (req_sessionId req) st = None"
    "req_agentName req = Some name" "name \<noteq> []" "getAgent unicode name = Inl err"
  shows "stream_handler unicode now now' outcome req st =
     (\<lparr>statusCode = 200, event_stream = False, sent = None,
       calls = [ErrorFrame (''Unknown agent: '' @ name)],
       written = [ErrorFrame (''Unknown agent: '' @ name)], write_errors = [], ended = True\<rparr>,
      st)"
proof -
  from assms have "resolve unicode now req st = (Thrown (UnknownAgent name), st)"
    using getAgent_Inl [OF assms(5)] by (simp add: resolve_unknown)
  from stream_handler_thrown [OF assms(1) this] show ?thesis
    by (simp add: res_end_def res_write_def res0_def)
qed

subsection \<open>The session id of a new session\<close>

lemma digit_inject: "a < 10 \<Longrightarrow> b < 10 \<Longrightarrow> digit a = digit b \<Longrightarrow> a = b"
proof -
  assume a: "a < 10" and b: "b < 10" and eq: "digit a = digit b"
  from eq have "(of_char (digit a) :: nat) = of_char (digit b)" by simp
  with a b show "a = b" by (simp add: digit_def)
qed

lemma show_nat_small: "n < 10 \<Longrightarrow> show_nat n = [digit n]"
  by (simp add: show_nat.simps)

lemma show_nat_large:
  "\<not> n < 10 \<Longrightarrow> show_nat n = show_nat (n div 10) @ [digit (n mod 10)]"
  by (subst show_nat.simps) simp

lemma show_nat_nonempty: "show_nat n \<noteq> []"
  by (cases "n < 10") (simp_all add: show_nat_small show_nat_large)

lemma show_nat_inject: "show_nat a = show_nat b \<Longrightarrow> a = b"
proof (induction a arbitrary: b rule: show_nat.induct)
  case (1 a)
  show ?case
  proof (cases "a < 10")
    case small: True
    show ?thesis
    proof (cases "b < 10")
      case True
      with small "1.prems" show ?thesis by (simp add: show_nat_small digit_inject)
    next
      case False
      with small "1.prems" show_nat_nonempty [of "b div 10"] show ?thesis
        by (simp add: show_nat_small show_nat_large)
    qed
  next
    case large: False
    show ?thesis
    proof (cases "b < 10")
      case True
      with large "1.prems" show_nat_nonempty [of "a div 10"] show ?thesis
        by (simp add: show_nat_small show_nat_large)
    next
      case False
      with large "1.prems" have
        "show_nat (a div 10) = show_nat (b div 10)" "digit (a mod 10) = digit (b mod 10)"
        by (simp_all add: show_nat_large)
      with "1.IH" [OF large] have "a div 10 = b div 10" "a mod 10 = b mod 10"
        by (simp_all add: digit_inject)
      then show ?thesis by (metis div_mult_mod_eq)
    qed
  qed
qed

lemma session_key_inject: "session_key name t = session_key name t' \<longleftrightarrow> t = t'"
  by (auto simp: session_key_def dest: show_nat_inject)


lemma resolve_new_session:
  assumes "\<not> truthy (req_sessionId req)" "truthy (req_agentName req)"
    "getAgent unicode (text_of (req_agentName req)) = Inr a"
    "fmlookup (chatSessions st) (session_key (text_of (req_agentName req)) now) = None"
  shows "resolve unicode now req st =
     (Resolved \<lparr>chat = fst (agent_chat a (session_key (text_of (req_agentName req)) now) True st),
                agentName = text_of (req_agentName req)\<rparr>,
      store_new a (text_of (req_agentName req))
        (session_key (text_of (req_agentName req)) now) st)"
proof -
  from assms(1) have none: "lookup_session (req_sessionId req) st = None"
    by (simp add: lookup_session_def)
  show ?thesis
    unfolding resolve_known [OF none assms(2,3)]
    using assms(1,4) by (simp add: Let_def or_session_key_falsy)
qed

text \<open>
  A new session made without a session id is stored under the key of the first clock
  reading and reported under the key of the second; the two agree only if the clock has not
  moved in between.
\<close>

lemma new_session_reported_key:
  assumes "truthy (req_message req)" "\<not> truthy (req_sessionId req)" "truthy (req_agentName req)"
    "getAgent unicode (text_of (req_agentName req)) = Inr a"
    "fmlookup (chatSessions st) (session_key (text_of (req_agentName req)) now) = None"
  shows "sent (fst (message_handler unicode now (Inr response) now' date req st)) =
           Some (MessageBody (session_key (text_of (req_agentName req)) now')
                   (text_of (req_agentName req)) (text_of (req_message req)) response date)"
    and "chatSessions (snd (message_handler unicode now (Inr response) now' date req st)) =
           fmupd (session_key (text_of (req_agentName req)) now)
             \<lparr>chat = fst (agent_chat a (session_key (text_of (req_agentName req)) now) True st),
               agentName = text_of (req_agentName req)\<rparr> (chatSessions st)"
    and "take 1 (written (fst (stream_handler unicode now now' (Inr events) req st))) =
           [StartFrame (session_key (text_of (req_agentName req)) now')
              (text_of (req_agentName req))]"
    and "chatSessions (snd (stream_handler unicode now now' (Inr events) req st)) =
           chatSessions (snd (message_handler unicode now (Inr response) now' date req st))"
    and "session_key (text_of (req_agentName req)) now'
           = session_key (text_of (req_agentName req)) now \<longleftrightarrow> now' = now"
proof -
  note r = resolve_new_session [OF assms(2-5)]
  show "sent (fst (message_handler unicode now (Inr response) now' date req st)) =
           Some (MessageBody (session_key (text_of (req_agentName req)) now')
                   (text_of (req_agentName req)) (text_of (req_message req)) response date)"
    using assms(2) by (simp add: message_handler_resolved [OF assms(1) r] or_session_key_falsy)
  show "chatSessions (snd (message_handler unicode now (Inr response) now' date req st)) =
           fmupd (session_key (text_of (req_agentName req)) now)
             \<lparr>chat = fst (agent_chat a (session_key (text_of (req_agentName req)) now) True st),
               agentName = text_of (req_agentName req)\<rparr> (chatSessions st)"
    by (simp add: message_handler_resolved [OF assms(1) r])
  have "\<not> ended (res_write f (res_writeHead res0))" for f by simp
  from relay_written [OF this, of events]
  show "take 1 (written (fst (stream_handler unicode now now' (Inr events) req st))) =
           [StartFrame (session_key (text_of (req_agentName req)) now')
              (text_of (req_agentName req))]"
    using assms(2) by (simp add: stream_handler_resolved [OF assms(1) r] or_session_key_falsy)
  show "chatSessions (snd (stream_handler unicode now now' (Inr events) req st)) =
           chatSessions (snd (message_handler unicode now (Inr response) now' date req st))"
    by (simp add: message_handler_state stream_handler_state)
  show "session_key (text_of (req_agentName req)) now'
           = session_key (text_of (req_agentName req)) now \<longleftrightarrow> now' = now"
    by (rule session_key_inject)
qed

subsection \<open>Deleting a session\<close>

lemma fcard_fminus_present: "x |\<in>| A \<Longrightarrow> Suc (fcard (A |-| {|x|})) = fcard A"
  by (rule fcard_Suc_fminus1)

text \<open>
  C9. \<^verbatim>\<open>DELETE /api/chat/sessions/:sessionId\<close> with an id in the registry answers 200 with
  the success message, removes that entry and no other (the registry has one entry less and
  the id is no longer found); with an id that is not in the registry it answers 404 with
  \<open>Session not found\<close>, nothing is thrown and the state is unchanged.
\<close>

theorem delete_handler_removes_exactly_that_entry:
  "(sid |\<in>| fmdom (chatSessions st) \<longrightarrow>
      fst (delete_handler sid st) = res_json (NoticeBody ''Session deleted successfully'') res0
    \<and> statusCode (fst (delete_handler sid st)) = 200
    \<and> fmlookup (chatSessions (snd (delete_handler sid st))) sid = None
    \<and> Suc (fcard (fmdom (chatSessions (snd (delete_handler sid st)))))
        = fcard (fmdom (chatSessions st))
    \<and> (\<forall>k. k \<noteq> sid \<longrightarrow>
          fmlookup (chatSessions (snd (delete_handler sid st))) k = fmlookup (chatSessions st) k))
   \<and> (sid |\<notin>| fmdom (chatSessions st) \<longrightarrow>
        delete_handler sid st
          = (res_json (ErrorBody ''Session not found'') (res_status 404 res0), st)
      \<and> statusCode (fst (delete_handler sid st)) = 404)"
proof (cases "sid |\<in>| fmdom (chatSessions st)")
  case True
  then have "Suc (fcard (fmdom (chatSessions st) |-| {|sid|})) = fcard (fmdom (chatSessions st))"
    by (rule fcard_fminus_present)
  with True show ?thesis
    by (simp add: delete_handler_def del: fcard_fminus_finsert)
next
  case False
  then show ?thesis
    by (simp add: delete_handler_def)
qed

theorem delete_handler_removes_exactly_that_entry_witness:
  "''s1'' |\<in>| fmdom (chatSessions s1_state)
   \<and> statusCode (fst (delete_handler ''s1'' s1_state)) = 200
   \<and> fmlookup (chatSessions (snd (delete_handler ''s1'' s1_state))) ''s1'' = None
   \<and> Suc (fcard (fmdom (chatSessions (snd (delete_handler ''s1'' s1_state)))))
       = fcard (fmdom (chatSessions s1_state))
   \<and> ''s2'' |\<notin>| fmdom (chatSessions s1_state)
   \<and> snd (delete_handler ''s2'' s1_state) = s1_state
   \<and> statusCode (fst (delete_handler ''s2'' s1_state)) = 404"
proof -
  have present: "''s1'' |\<in>| fmdom (chatSessions s1_state)"
    and absent: "''s2'' |\<notin>| fmdom (chatSessions s1_state)"
    by (simp_all add: s1_state_def)
  show ?thesis
    using present absent delete_handler_removes_exactly_that_entry [of "''s1''" s1_state]
      delete_handler_removes_exactly_that_entry [of "''s2''" s1_state]
    by simp
qed

subsection \<open>Agent resolution\<close>

text \<open>
  C5. \<open>getAgent\<close> resolves a name to an agent exactly when the alias table covers the name
  for that agent: for an ASCII name, when it is, up to the case of its letters, one of the
  agent's aliases (\<open>book\<close>, \<open>book-assistant\<close>; \<open>crypto\<close>, \<open>crypto-assistant\<close>); for a name
  with other characters, when its lower-case form by the Unicode tables is one of them. Two
  names with the same lower-case form, and so two ASCII case variants of a name, resolve
  alike. For every name the table does not cover \<open>getAgent\<close> throws \<open>UnknownAgent\<close> with that
  name; then \<open>getOrCreateChatSession\<close> throws the same error and leaves the state as it was,
  and none of the three \<^verbatim>\<open>POST\<close> routes called with that agent name changes the registry.
\<close>

theorem getAgent_case_insensitive_alias_table:
  "(getAgent unicode n = Inr a \<longleftrightarrow> names unicode a n)
   \<and> (toLowerCase unicode n = toLowerCase unicode m \<longrightarrow>
        (getAgent unicode n = Inr a \<longleftrightarrow> getAgent unicode m = Inr a))
   \<and> (case_variant n m \<and> list_all is_ascii n \<longrightarrow>
        (getAgent unicode n = Inr a \<longleftrightarrow> getAgent unicode m = Inr a))
   \<and> (\<not> names unicode BookAssistantAgent n \<and> \<not> names unicode CryptoAssistantAgent n \<longrightarrow>
         getAgent unicode n = Inl (UnknownAgent n)
       \<and> getOrCreateChatSession unicode now n sid st = (Inl (UnknownAgent n), st)
       \<and> (req_agentName req = Some n \<longrightarrow>
            snd (start_handler unicode now req st) = st
          \<and> chatSessions (snd (message_handler unicode now outcome now' date req st))
              = chatSessions st
          \<and> chatSessions (snd (stream_handler unicode now now' stream_outcome req st))
              = chatSessions st))"
proof (intro conjI impI)
  show "getAgent unicode n = Inr a \<longleftrightarrow> names unicode a n" by (rule getAgent_Inr_iff)
next
  assume "toLowerCase unicode n = toLowerCase unicode m"
  then show "getAgent unicode n = Inr a \<longleftrightarrow> getAgent unicode m = Inr a"
    by (rule getAgent_same_lower_case)
next
  assume "case_variant n m \<and> list_all is_ascii n"
  then show "getAgent unicode n = Inr a \<longleftrightarrow> getAgent unicode m = Inr a"
    using getAgent_case_variant by blast
next
  assume none: "\<not> names unicode BookAssistantAgent n \<and> \<not> names unicode CryptoAssistantAgent n"
  have "\<not> names unicode a n" for a
    using none by (cases a) simp_all
  then have "\<forall>a. \<not> names unicode a n" by blast
  then have unknown: "getAgent unicode n = Inl (UnknownAgent n)"
    by (simp add: getAgent_unknown_iff)
  then show "getAgent unicode n = Inl (UnknownAgent n)" .
  from unknown show "getOrCreateChatSession unicode now n sid st = (Inl (UnknownAgent n), st)"
    by (rule getOrCreate_unknown)
  assume "req_agentName req = Some n"
  with unknown have req: "getAgent unicode (text_of (req_agentName req)) = Inl (UnknownAgent n)"
    by simp
  then show "snd (start_handler unicode now req st) = st"
    by (simp add: start_handler_state getOrCreate_unknown)
  from req show "chatSessions (snd (message_handler unicode now outcome now' date req st))
                   = chatSessions st"
    by (simp add: message_handler_state resolve_unknown_state)
  from req show "chatSessions (snd (stream_handler unicode now now' stream_outcome req st))
                   = chatSessions st"
    by (simp add: stream_handler_state resolve_unknown_state)
qed

theorem getAgent_case_insensitive_alias_table_witness:
  "getAgent kelvin_table ''BOOK'' = Inr BookAssistantAgent
   \<and> getAgent kelvin_table ''Book-Assistant'' = Inr BookAssistantAgent
   \<and> getAgent kelvin_table ''cRyPtO'' = Inr CryptoAssistantAgent
   \<and> getAgent kelvin_table ''CRYPTO-assistant'' = Inr CryptoAssistantAgent
   \<and> getAgent kelvin_table boo_kelvin = Inr BookAssistantAgent
   \<and> case_variant ''BOOK'' ''book'' \<and> list_all is_ascii ''BOOK''
   \<and> \<not> names kelvin_table BookAssistantAgent ''unknown-agent''
   \<and> \<not> names kelvin_table CryptoAssistantAgent ''unknown-agent''
   \<and> getAgent kelvin_table ''unknown-agent'' = Inl (UnknownAgent ''unknown-agent'')
   \<and> getOrCreateChatSession kelvin_table 5 ''unknown-agent'' (Some ''s2'') s1_state
       = (Inl (UnknownAgent ''unknown-agent''), s1_state)
   \<and> chatSessions (snd (message_handler kelvin_table 5 (Inr ''hello'') 6 7
        \<lparr>req_sessionId = None, req_message = Some ''hi'', req_agentName = Some ''unknown-agent''\<rparr>
        s1_state)) = chatSessions s1_state"
proof -
  note covered = getAgent_case_insensitive_alias_table [THEN conjunct1]
  have names:
    "names kelvin_table BookAssistantAgent ''BOOK''"
    "names kelvin_table BookAssistantAgent ''Book-Assistant''"
    "names kelvin_table CryptoAssistantAgent ''cRyPtO''"
    "names kelvin_table CryptoAssistantAgent ''CRYPTO-assistant''"
    "names kelvin_table BookAssistantAgent boo_kelvin"
    by (simp_all add: names_def is_ascii_def case_variant_examples kelvin_table_def
          boo_kelvin_def)
  let ?req = "\<lparr>req_sessionId = None, req_message = Some ''hi'',
               req_agentName = Some ''unknown-agent''\<rparr>"
  have unknown: "\<not> names kelvin_table BookAssistantAgent ''unknown-agent''
                 \<and> \<not> names kelvin_table CryptoAssistantAgent ''unknown-agent''"
    by (simp add: names_unknown_agent)
  have req: "req_agentName ?req = Some ''unknown-agent''" by simp
  note thrown = getAgent_case_insensitive_alias_table
    [of kelvin_table "''unknown-agent''" BookAssistantAgent "''unknown-agent''" 5 "Some ''s2''"
      s1_state ?req "Inr ''hello''" 6 7,
      THEN conjunct2, THEN conjunct2, THEN conjunct2, rule_format, OF unknown]
  from names covered [of kelvin_table "''BOOK''" BookAssistantAgent]
    covered [of kelvin_table "''Book-Assistant''" BookAssistantAgent]
    covered [of kelvin_table "''cRyPtO''" CryptoAssistantAgent]
    covered [of kelvin_table "''CRYPTO-assistant''" CryptoAssistantAgent]
    covered [of kelvin_table boo_kelvin BookAssistantAgent]
  have resolved:
    "getAgent kelvin_table ''BOOK'' = Inr BookAssistantAgent"
    "getAgent kelvin_table ''Book-Assistant'' = Inr BookAssistantAgent"
    "getAgent kelvin_table ''cRyPtO'' = Inr CryptoAssistantAgent"
    "getAgent kelvin_table ''CRYPTO-assistant'' = Inr CryptoAssistantAgent"
    "getAgent kelvin_table boo_kelvin = Inr BookAssistantAgent"
    by blast+
  from thrown have failed:
    "getAgent kelvin_table ''unknown-agent'' = Inl (UnknownAgent ''unknown-agent'')"
    "getOrCreateChatSession kelvin_table 5 ''unknown-agent'' (Some ''s2'') s1_state
       = (Inl (UnknownAgent ''unknown-agent''), s1_state)"
    "chatSessions (snd (message_handler kelvin_table 5 (Inr ''hello'') 6 7 ?req s1_state))
       = chatSessions s1_state"
    using req by blast+
  from resolved failed unknown case_variant_examples(1) ascii_examples(1)
  show ?thesis by blast
qed

subsection \<open>A session id that is already in the registry\<close>

text \<open>
  C6, as stated, fails: with \<open>s1\<close> in the registry, \<open>getOrCreateChatSession\<close> called with
  \<open>s1\<close> and an agent name that \<open>getAgent\<close> does not know throws \<open>UnknownAgent\<close>.
\<close>

theorem getOrCreate_existing_session_unknown_agent_fails:
  "fmlookup (chatSessions s1_state) ''s1'' = Some \<lparr>chat = s1_chat, agentName = ''book''\<rparr>
   \<and> getOrCreateChatSession kelvin_table 0 ''unknown-agent'' (Some ''s1'') s1_state
       = (Inl (UnknownAgent ''unknown-agent''), s1_state)"
  by (simp add: getOrCreate_unknown getAgent_examples)

text \<open>
  C6, amended. For a non-empty session id that is in the registry, \<open>getOrCreateChatSession\<close>
  called with an agent name that \<open>getAgent\<close> resolves returns the stored chat and the stored
  agent name under that session id, whatever the name resolves to; called with any other
  name it throws \<open>UnknownAgent\<close>. In both cases the state is unchanged.
\<close>

theorem getOrCreate_existing_session:
  assumes "fmlookup (chatSessions st) s = Some e" and "s \<noteq> []"
  shows "getOrCreateChatSession unicode now name (Some s) st =
           (case getAgent unicode name of
              Inr a \<Rightarrow> (Inr \<lparr>chat = chat e, agentName = agentName e, sessionId = s\<rparr>, st)
            | Inl err \<Rightarrow> (Inl (UnknownAgent name), st))"
  using assms by (rule getOrCreate_present)

theorem getOrCreate_existing_session_witness:
  "fmlookup (chatSessions s1_state) ''s1'' = Some \<lparr>chat = s1_chat, agentName = ''book''\<rparr>
   \<and> ''s1'' \<noteq> []
   \<and> getAgent kelvin_table ''crypto'' = Inr CryptoAssistantAgent
   \<and> getOrCreateChatSession kelvin_table 7 ''crypto'' (Some ''s1'') s1_state
       = (Inr \<lparr>chat = s1_chat, agentName = ''book'', sessionId = ''s1''\<rparr>, s1_state)"
proof -
  have present: "fmlookup (chatSessions s1_state) ''s1'' = Some \<lparr>chat = s1_chat, agentName = ''book''\<rparr>"
    by simp
  have nonempty: "''s1'' \<noteq> []" by simp
  show ?thesis
    using present getOrCreate_existing_session [OF present nonempty, of kelvin_table 7 "''crypto''"]
    by (simp add: getAgent_examples)
qed

subsection \<open>One chat object for a session id\<close>

text \<open>
  C2. Let a call of \<open>getOrCreateChatSession\<close> return a session. The chat it returns is the
  one stored under the returned session id, and the call has built at most one chat object.
  A second call with that session id and the same agent name returns the same result, chat
  included, and changes nothing; with any agent name a second call builds no chat and, if it
  returns, returns the stored chat. This stays so after any requests that do not delete the
  session: the same call still returns the same chat and no further chat object has been
  built for that session id. Starting from the empty server, a session id that no request
  deletes never has more than one chat object built for it.
\<close>

theorem chat_handle_constructed_once:
  assumes "getOrCreateChatSession unicode now name sid st = (Inr r, st1)"
  shows "fmlookup (chatSessions st1) (sessionId r) = Some \<lparr>chat = chat r, agentName = agentName r\<rparr>
    \<and> length (constructed st1) \<le> Suc (length (constructed st))
    \<and> getOrCreateChatSession unicode now2 name (Some (sessionId r)) st1 = (Inr r, st1)
    \<and> snd (getOrCreateChatSession unicode now2 name2 (Some (sessionId r)) st1) = st1
    \<and> (\<forall>r2. fst (getOrCreateChatSession unicode now2 name2 (Some (sessionId r)) st1) = Inr r2
          \<longrightarrow> chat r2 = chat r)
    \<and> (DeleteSession (sessionId r) \<notin> set reqs \<longrightarrow>
          getOrCreateChatSession unicode now3 name (Some (sessionId r)) (run unicode reqs st1)
            = (Inr r, run unicode reqs st1)
        \<and> chats_for (sessionId r) (run unicode reqs st1) = chats_for (sessionId r) st1)
    \<and> (DeleteSession k \<notin> set reqs \<longrightarrow> length (chats_for k (run unicode reqs init)) \<le> 1)"
proof -
  note ret = getOrCreate_returned [OF assms]
  from ret(1) obtain a where a: "getAgent unicode name = Inr a" by blast
  have again: "getOrCreateChatSession unicode t name (Some (sessionId r)) s = (Inr r, s)"
    if "fmlookup (chatSessions s) (sessionId r) = Some \<lparr>chat = chat r, agentName = agentName r\<rparr>"
    for t s
    using getOrCreate_present [OF that ret(2), of unicode t name] a by simp
  have any: "snd (getOrCreateChatSession unicode now2 name2 (Some (sessionId r)) st1) = st1
    \<and> (\<forall>r2. fst (getOrCreateChatSession unicode now2 name2 (Some (sessionId r)) st1) = Inr r2
          \<longrightarrow> chat r2 = chat r)"
    using getOrCreate_present [OF ret(4) ret(2), of unicode now2 name2]
    by (cases "getAgent unicode name2") auto
  have later: "getOrCreateChatSession unicode now3 name (Some (sessionId r)) (run unicode reqs st1)
            = (Inr r, run unicode reqs st1)
        \<and> chats_for (sessionId r) (run unicode reqs st1) = chats_for (sessionId r) st1"
    if "DeleteSession (sessionId r) \<notin> set reqs"
    using run_keeps_entry [OF ret(4) that, of unicode] again by simp
  have once: "length (chats_for k (run unicode reqs init)) \<le> 1" if "DeleteSession k \<notin> set reqs"
    using run_once [OF init_once that, of unicode] by (simp split: if_splits)
  from ret(4) ret(5) again [OF ret(4)] any later once show ?thesis by blast
qed

theorem chat_handle_constructed_once_witness:
  "getOrCreateChatSession kelvin_table 0 ''book'' (Some ''s1'') init
     = (Inr \<lparr>chat = s1_chat, agentName = ''book'', sessionId = ''s1''\<rparr>, s1_state)
   \<and> getOrCreateChatSession kelvin_table 9 ''book'' (Some ''s1'') s1_state
     = (Inr \<lparr>chat = s1_chat, agentName = ''book'', sessionId = ''s1''\<rparr>, s1_state)
   \<and> snd (getOrCreateChatSession kelvin_table 9 ''crypto'' (Some ''s1'') s1_state) = s1_state
   \<and> DeleteSession ''s1'' \<notin> set example_requests
   \<and> chats_for ''s1'' (run kelvin_table example_requests s1_state) = [s1_chat]
   \<and> length (chats_for ''s1'' (run kelvin_table example_requests init)) \<le> 1"
proof -
  have kept: "DeleteSession ''s1'' \<notin> set example_requests"
    by (simp add: example_requests_def)
  have one: "chats_for ''s1'' s1_state = [s1_chat]"
    by (simp add: chats_for_def s1_chat_def)
  show ?thesis
    using kept one
      chat_handle_constructed_once [OF s1_state_reached [of kelvin_table 0], of 9 "''crypto''" example_requests 9 "''s1''"]
    by (simp add: s1_state_reached)
qed

subsection \<open>Sending a message\<close>

text \<open>
  C4. \<^verbatim>\<open>POST /api/chat/message\<close> with a missing or empty message answers 400 with
  \<open>Message is required\<close>, whatever the other fields are. With a message, but with a session
  id that is missing, empty or not in the registry and with a missing or empty agent name,
  it answers 400 with \<open>Either sessionId or agentName is required\<close>. In both cases the state,
  and with it the registry, is the one before the request.
\<close>

theorem message_handler_rejects_before_registry:
  "(\<not> truthy (req_message req) \<longrightarrow>
      message_handler unicode now outcome now' date req st =
        (res_json (ErrorBody ''Message is required'') (res_status 400 res0), st)
    \<and> statusCode (fst (message_handler unicode now outcome now' date req st)) = 400)
   \<and> (truthy (req_message req)
       \<and> (\<not> truthy (req_sessionId req)
            \<or> fmlookup (chatSessions st) (text_of (req_sessionId req)) = None)
       \<and> \<not> truthy (req_agentName req) \<longrightarrow>
      message_handler unicode now outcome now' date req st =
        (res_json (ErrorBody ''Either sessionId or agentName is required'')
           (res_status 400 res0), st)
    \<and> statusCode (fst (message_handler unicode now outcome now' date req st)) = 400)"
proof (intro conjI impI)
  assume "\<not> truthy (req_message req)"
  then show "message_handler unicode now outcome now' date req st =
        (res_json (ErrorBody ''Message is required'') (res_status 400 res0), st)"
    and "statusCode (fst (message_handler unicode now outcome now' date req st)) = 400"
    by (simp_all add: message_handler_no_message)
next
  assume a: "truthy (req_message req)
       \<and> (\<not> truthy (req_sessionId req)
            \<or> fmlookup (chatSessions st) (text_of (req_sessionId req)) = None)
       \<and> \<not> truthy (req_agentName req)"
  then have "resolve unicode now req st = (NoTarget, st)"
    by (simp add: resolve_no_target lookup_session_None_iff)
  with a show "message_handler unicode now outcome now' date req st =
        (res_json (ErrorBody ''Either sessionId or agentName is required'')
           (res_status 400 res0), st)"
    and "statusCode (fst (message_handler unicode now outcome now' date req st)) = 400"
    by (simp_all add: message_handler_no_target)
qed

theorem message_handler_rejects_before_registry_witness:
  "\<not> truthy (Some '''')
   \<and> message_handler kelvin_table 1 (Inr ''fine'') 2 3
       \<lparr>req_sessionId = Some ''s1'', req_message = Some '''', req_agentName = Some ''book''\<rparr>
       s1_state
      = (res_json (ErrorBody ''Message is required'') (res_status 400 res0), s1_state)
   \<and> truthy (Some ''hi'') \<and> fmlookup (chatSessions s1_state) ''s9'' = None \<and> \<not> truthy None
   \<and> message_handler kelvin_table 1 (Inr ''fine'') 2 3
       \<lparr>req_sessionId = Some ''s9'', req_message = Some ''hi'', req_agentName = None\<rparr>
       s1_state
      = (res_json (ErrorBody ''Either sessionId or agentName is required'')
           (res_status 400 res0), s1_state)"
  using message_handler_rejects_before_registry [of
      "\<lparr>req_sessionId = Some ''s1'', req_message = Some '''', req_agentName = Some ''book''\<rparr>"
      kelvin_table 1 "Inr ''fine''" 2 3 s1_state]
    message_handler_rejects_before_registry [of
      "\<lparr>req_sessionId = Some ''s9'', req_message = Some ''hi'', req_agentName = None\<rparr>"
      kelvin_table 1 "Inr ''fine''" 2 3 s1_state]
  by simp

text \<open>
  C1. \<^verbatim>\<open>POST /api/chat/message\<close> with a message and with a session id that is in the
  registry prompts the chat stored under that id with the message and leaves the registry as
  it is; when the prompt returns, the response carries the session id, the stored agent name,
  the message and the answer. The agent name of the request has no influence: replacing it by
  any other value gives the same response and the same state.
\<close>

theorem message_handler_existing_session:
  assumes "truthy (req_message req)" and "truthy (req_sessionId req)"
    and "fmlookup (chatSessions st) (text_of (req_sessionId req)) = Some e"
  shows "message_handler unicode now outcome now' date req st =
     (case outcome of
        Inl err \<Rightarrow>
          res_json (FailureBody ''Failed to process message'' (error_message err))
            (res_status 500 res0)
      | Inr response \<Rightarrow>
          res_json (MessageBody (text_of (req_sessionId req)) (agentName e)
                      (text_of (req_message req)) response date) res0,
      st\<lparr>prompted := prompted st @ [(chat e, text_of (req_message req))]\<rparr>)
   \<and> message_handler unicode now outcome now' date (req\<lparr>req_agentName := other\<rparr>) st
      = message_handler unicode now outcome now' date req st"
proof -
  from assms have found: "lookup_session (req_sessionId req) st = Some e"
    by (simp add: lookup_session_Some)
  then have r: "resolve unicode now req st = (Resolved e, st)" by (rule resolve_found)
  from found have "lookup_session (req_sessionId (req\<lparr>req_agentName := other\<rparr>)) st = Some e"
    by simp
  then have r': "resolve unicode now (req\<lparr>req_agentName := other\<rparr>) st = (Resolved e, st)"
    by (rule resolve_found)
  from assms(1) have m': "truthy (req_message (req\<lparr>req_agentName := other\<rparr>))" by simp
  show ?thesis
    unfolding message_handler_resolved [OF assms(1) r] message_handler_resolved [OF m' r']
    using assms(2) by (cases outcome) (simp_all add: or_session_key_truthy)
qed

theorem message_handler_existing_session_witness:
  "truthy (Some ''hi'') \<and> truthy (Some ''s1'')
   \<and> fmlookup (chatSessions s1_state) ''s1'' = Some \<lparr>chat = s1_chat, agentName = ''book''\<rparr>
   \<and> message_handler kelvin_table 1 (Inr ''fine'') 2 3
       \<lparr>req_sessionId = Some ''s1'', req_message = Some ''hi'', req_agentName = Some ''crypto''\<rparr>
       s1_state
      = (res_json (MessageBody ''s1'' ''book'' ''hi'' ''fine'' 3) res0,
         s1_state\<lparr>prompted := [(s1_chat, ''hi'')]\<rparr>)"
proof -
  let ?req = "\<lparr>req_sessionId = Some ''s1'', req_message = Some ''hi'',
               req_agentName = Some ''crypto''\<rparr>"
  have m: "truthy (req_message ?req)" and s: "truthy (req_sessionId ?req)"
    and e: "fmlookup (chatSessions s1_state) (text_of (req_sessionId ?req))
              = Some \<lparr>chat = s1_chat, agentName = ''book''\<rparr>"
    by simp_all
  show ?thesis
    using message_handler_existing_session [OF m s e, of kelvin_table 1 "Inr ''fine''" 2 3 None]
    by simp
qed

text \<open>
  C8. Let \<^verbatim>\<open>POST /api/chat/message\<close> reach the prompt, that is, let the request carry a
  message and let the resolution give a session, and let the prompt throw. Then the route
  answers 500 with \<open>Failed to process message\<close> and the message of the error as details.
  The registry is the one the resolution left, the same as if the prompt had returned: the
  session is stored under its key, every entry that was there before the request is still
  there, and a next message sent with that key is prompted to the same chat.
\<close>

theorem message_handler_upstream_failure:
  assumes "truthy (req_message req)" and "resolve unicode now req st = (Resolved cs, st1)"
    and "k = or_session_key (req_sessionId req) (text_of (req_agentName req)) now"
    and "st2 = snd (message_handler unicode now (Inl err) now' date req st)"
  shows "message_handler unicode now (Inl err) now' date req st =
           (res_json (FailureBody ''Failed to process message'' (error_message err))
              (res_status 500 res0),
            st1\<lparr>prompted := prompted st1 @ [(chat cs, text_of (req_message req))]\<rparr>)
    \<and> statusCode (fst (message_handler unicode now (Inl err) now' date req st)) = 500
    \<and> chatSessions st2 = chatSessions (snd (message_handler unicode now (Inr response) now' date req st))
    \<and> fmlookup (chatSessions st2) k = Some cs
    \<and> (\<forall>k' e. fmlookup (chatSessions st) k' = Some e \<longrightarrow> fmlookup (chatSessions st2) k' = Some e)
    \<and> (truthy (req_message req2) \<and> req_sessionId req2 = Some k \<longrightarrow>
          prompted (snd (message_handler unicode t outcome t' d req2 st2))
            = prompted st2 @ [(chat cs, text_of (req_message req2))]
        \<and> chatSessions (snd (message_handler unicode t outcome t' d req2 st2)) = chatSessions st2)"
proof -
  have failed: "message_handler unicode now (Inl err) now' date req st =
           (res_json (FailureBody ''Failed to process message'' (error_message err))
              (res_status 500 res0),
            st1\<lparr>prompted := prompted st1 @ [(chat cs, text_of (req_message req))]\<rparr>)"
    using message_handler_resolved [OF assms(1,2), of "Inl err"] by simp
  then have reg: "chatSessions st2 = chatSessions st1" using assms(4) by simp
  have same: "chatSessions st2 = chatSessions (snd (message_handler unicode now (Inr response) now' date req st))"
    using reg message_handler_resolved [OF assms(1,2), of "Inr response"] by simp
  have entry: "fmlookup (chatSessions st2) k = Some cs"
    using resolve_Resolved_key [OF assms(2)] reg assms(3) by simp
  have kept: "fmlookup (chatSessions st2) k' = Some e" if "fmlookup (chatSessions st) k' = Some e"
    for k' e
    using grows_lookup [OF _ that, of st1] resolve_grows [of st unicode now req] assms(2) reg by simp
  have usable: "prompted (snd (message_handler unicode t outcome t' d req2 st2))
            = prompted st2 @ [(chat cs, text_of (req_message req2))]
        \<and> chatSessions (snd (message_handler unicode t outcome t' d req2 st2)) = chatSessions st2"
    if n: "truthy (req_message req2) \<and> req_sessionId req2 = Some k"
  proof -
    from assms(3) have "k \<noteq> []" by (simp add: or_session_key_nonempty)
    with n entry have "lookup_session (req_sessionId req2) st2 = Some cs"
      by (simp add: lookup_session_Some)
    then have "resolve unicode t req2 st2 = (Resolved cs, st2)" by (rule resolve_found)
    with n show ?thesis
      using message_handler_resolved [of req2 unicode t st2 cs st2 outcome t' d] by simp
  qed
  from failed same entry kept usable show ?thesis by simp
qed

theorem message_handler_upstream_failure_witness:
  "truthy (Some ''hi'')
   \<and> resolve kelvin_table 1 \<lparr>req_sessionId = Some ''s1'', req_message = Some ''hi'', req_agentName = None\<rparr> s1_state
       = (Resolved \<lparr>chat = s1_chat, agentName = ''book''\<rparr>, s1_state)
   \<and> message_handler kelvin_table 1 (Inl (RuntimeError ''model overloaded'')) 2 3
       \<lparr>req_sessionId = Some ''s1'', req_message = Some ''hi'', req_agentName = None\<rparr> s1_state
      = (res_json (FailureBody ''Failed to process message'' ''model overloaded'')
           (res_status 500 res0),
         s1_state\<lparr>prompted := [(s1_chat, ''hi'')]\<rparr>)
   \<and> fmlookup (chatSessions (s1_state\<lparr>prompted := [(s1_chat, ''hi'')]\<rparr>)) ''s1''
       = Some \<lparr>chat = s1_chat, agentName = ''book''\<rparr>
   \<and> prompted (snd (message_handler kelvin_table 4 (Inr ''fine'') 5 6
         \<lparr>req_sessionId = Some ''s1'', req_message = Some ''again'', req_agentName = None\<rparr>
         (s1_state\<lparr>prompted := [(s1_chat, ''hi'')]\<rparr>)))
       = [(s1_chat, ''hi''), (s1_chat, ''again'')]"
proof -
  let ?req = "\<lparr>req_sessionId = Some ''s1'', req_message = Some ''hi'', req_agentName = None\<rparr>"
  let ?next = "\<lparr>req_sessionId = Some ''s1'', req_message = Some ''again'', req_agentName = None\<rparr>"
  let ?err = "RuntimeError ''model overloaded''"
  have m: "truthy (req_message ?req)" by simp
  have r: "resolve kelvin_table 1 ?req s1_state = (Resolved \<lparr>chat = s1_chat, agentName = ''book''\<rparr>, s1_state)"
    by (rule resolve_found) (simp add: lookup_session_def)
  have k: "''s1'' = or_session_key (req_sessionId ?req) (text_of (req_agentName ?req)) 1"
    by (simp add: or_session_key_def)
  have failed: "message_handler kelvin_table 1 (Inl ?err) 2 3 ?req s1_state
      = (res_json (FailureBody ''Failed to process message'' ''model overloaded'')
           (res_status 500 res0),
         s1_state\<lparr>prompted := [(s1_chat, ''hi'')]\<rparr>)"
    using message_handler_upstream_failure [OF m r k refl, of ?err 2 3] by simp
  then have st2: "s1_state\<lparr>prompted := [(s1_chat, ''hi'')]\<rparr>
                   = snd (message_handler kelvin_table 1 (Inl ?err) 2 3 ?req s1_state)"
    by simp
  show ?thesis
    using r failed
      message_handler_upstream_failure [OF m r k st2, of "''x''" ?next 4 "Inr ''fine''" 5 6]
      message_handler_resolved [OF m r, of "Inr ''x''" 2 3]
    by simp
qed

subsection \<open>Streaming\<close>




text \<open>
  C7 fails on the code for an unknown agent name: the exception of \<open>getAgent\<close> is caught by
  the \<^verbatim>\<open>catch\<close> of the stream route, which writes an error frame and ends the response. No
  status was set, so the response goes out with status 200 and one frame, where
  \<^verbatim>\<open>POST /api/chat/start\<close> answers the same exception with 400. (For an empty message and for
  a missing target the stream route does answer 400 and writes no frame:
  \<open>stream_handler_no_message\<close>, \<open>stream_handler_no_target\<close>.)
\<close>

theorem stream_handler_unknown_agent_error_frame:
  "stream_handler unicode 1 2 (Inr [])
     \<lparr>req_sessionId = None, req_message = Some ''hi'', req_agentName = Some ''unknown-agent''\<rparr>
     init
   = (\<lparr>statusCode = 200, event_stream = False, sent = None,
       calls = [ErrorFrame ''Unknown agent: unknown-agent''],
       written = [ErrorFrame ''Unknown agent: unknown-agent''], write_errors = [], ended = True\<rparr>,
      init)"
  by (rule stream_handler_unknown_agent [where name = "''unknown-agent''", simplified])
    (simp_all add: lookup_session_def getAgent_examples)

subsection \<open>The session id reported for a new session\<close>

text \<open>
  C10 fails on the code whenever the clock moves between line 36 and the response. A
  message without session id for agent \<open>book\<close>, with the clock at 1000 when the session is
  created and at 1001 when the response is built: the session is stored under
  \<open>session-book-1000\<close> and the client is told \<open>session-book-1001\<close>, on the message route
  and in the start frame of the stream route.
\<close>

theorem new_session_reported_under_unstored_id:
  "sent (fst (message_handler unicode 1000 (Inr ''fine'') 1001 1002
       \<lparr>req_sessionId = None, req_message = Some ''hi'', req_agentName = Some ''book''\<rparr> init))
     = Some (MessageBody ''session-book-1001'' ''book'' ''hi'' ''fine'' 1002)
   \<and> fmdom (chatSessions (snd (message_handler unicode 1000 (Inr ''fine'') 1001 1002
       \<lparr>req_sessionId = None, req_message = Some ''hi'', req_agentName = Some ''book''\<rparr> init)))
     = {|''session-book-1000''|}
   \<and> take 1 (written (fst (stream_handler unicode 1000 1001 (Inr [Content ''a'', End])
       \<lparr>req_sessionId = None, req_message = Some ''hi'', req_agentName = Some ''book''\<rparr> init)))
     = [StartFrame ''session-book-1001'' ''book'']
   \<and> fmdom (chatSessions (snd (stream_handler unicode 1000 1001 (Inr [Content ''a'', End])
       \<lparr>req_sessionId = None, req_message = Some ''hi'', req_agentName = Some ''book''\<rparr> init)))
     = {|''session-book-1000''|}"
proof -
  let ?req = "\<lparr>req_sessionId = None, req_message = Some ''hi'', req_agentName = Some ''book''\<rparr>"
  have m: "truthy (req_message ?req)" and s: "\<not> truthy (req_sessionId ?req)"
    and n: "truthy (req_agentName ?req)"
    and a: "getAgent unicode (text_of (req_agentName ?req)) = Inr BookAssistantAgent"
    and free: "fmlookup (chatSessions init) (session_key (text_of (req_agentName ?req)) 1000) = None"
    by (simp_all add: getAgent_examples)
  note key = new_session_reported_key [OF m s n a free]
  show ?thesis
    using key(1) [of "''fine''" 1001 1002] key(2) [of "''fine''" 1001 1002]
      key(3) [of 1001 "[Content ''a'', End]"] key(4) [of 1001 "[Content ''a'', End]" "''fine''" 1002]
    by (simp add: session_key_def show_nat_examples)
qed


end
